theory Spec2Isabelle
  imports Main
begin

text \<open>
  The chat response application: the class \<open>PumpFunChatApp\<close> with its output line
  parser (\<open>parseAndQueueComments\<close>), its deduplicating intake (\<open>queueComment\<close>), its
  sequential processor (\<open>processNextComment\<close>), its response generator
  (\<open>generateResponse\<close>), its speech announcer (\<open>speakResponse\<close>) and its two HTTP
  endpoints. The repository holds the class twice. The copy modelled in full is the later
  one, with \<open>queueComment\<close> and the speech timeout; of the earlier copy in \<open>app.js\<close>
  the parser and the start endpoint are modelled, in a section of their own, where they differ.
\<close>

section \<open>Strings of the host language\<close>

text \<open>
  A JavaScript string is a sequence of UTF-16 code units; a code unit is held as a natural
  number. \<open>js\<close> turns an ASCII literal of this theory into such a string.
\<close>

type_synonym jsstring = "nat list"

definition js :: "string \<Rightarrow> jsstring" where
  "js s = map of_char s"

definition is_line_terminator :: "nat \<Rightarrow> bool" where
  \<comment> \<open>the code units the regular-expression dot does not match\<close>
  "is_line_terminator c = (c = 0x0A \<or> c = 0x0D \<or> c = 0x2028 \<or> c = 0x2029)"

definition is_white_space :: "nat \<Rightarrow> bool" where
  \<comment> \<open>what \<open>\s\<close> matches and \<open>trim\<close> strips: white space and line terminators\<close>
  "is_white_space c =
     (c = 0x09 \<or> c = 0x0A \<or> c = 0x0B \<or> c = 0x0C \<or> c = 0x0D \<or> c = 0x20 \<or> c = 0xA0
      \<or> c = 0x1680 \<or> (0x2000 \<le> c \<and> c \<le> 0x200A) \<or> c = 0x2028 \<or> c = 0x2029
      \<or> c = 0x202F \<or> c = 0x205F \<or> c = 0x3000 \<or> c = 0xFEFF)"

definition is_word_char :: "nat \<Rightarrow> bool" where
  \<comment> \<open>\<open>\w\<close>: ASCII letters, digits and the underscore\<close>
  "is_word_char c =
     ((0x41 \<le> c \<and> c \<le> 0x5A) \<or> (0x61 \<le> c \<and> c \<le> 0x7A) \<or> (0x30 \<le> c \<and> c \<le> 0x39) \<or> c = 0x5F)"

definition is_dot_char :: "nat \<Rightarrow> bool" where
  "is_dot_char c = (\<not> is_line_terminator c)"

definition not_colon :: "nat \<Rightarrow> bool" where
  \<comment> \<open>the class \<open>[^:]\<close>\<close>
  "not_colon c = (c \<noteq> 0x3A)"

definition trim :: "jsstring \<Rightarrow> jsstring" where
  "trim s = rev (dropWhile is_white_space (rev (dropWhile is_white_space s)))"

definition starts_with :: "jsstring \<Rightarrow> jsstring \<Rightarrow> bool" where
  "starts_with s p = (take (length p) s = p)"

text \<open>\<open>s.includes(sub)\<close>: \<open>sub\<close> occurs in \<open>s\<close> at some position.\<close>

fun includes_str :: "jsstring \<Rightarrow> jsstring \<Rightarrow> bool" where
  "includes_str [] sub = (sub = [])"
| "includes_str (c # cs) sub = (starts_with (c # cs) sub \<or> includes_str cs sub)"

text \<open>\<open>split('\n')\<close>: the pieces between line feeds; an empty string gives one empty piece.\<close>

fun split_nl :: "jsstring \<Rightarrow> jsstring list" where
  "split_nl [] = [[]]"
| "split_nl (c # cs) =
     (if c = 0x0A then [] # split_nl cs
      else (case split_nl cs of [] \<Rightarrow> [[c]] | l # ls \<Rightarrow> (c # l) # ls))"

text \<open>
  \<open>toLowerCase\<close>, one code unit at a time. ASCII capitals map to their small letters.
  Two code units beyond ASCII lower-case to text with an ASCII letter in it (the Kelvin
  sign to \<open>k\<close>, the dotted capital I to \<open>i\<close> and a combining dot). Every other code
  unit is kept as it is: its lower case holds no ASCII letter either, and the only use of
  the result is a search for ASCII terms.
\<close>

definition lower_unit :: "nat \<Rightarrow> jsstring" where
  "lower_unit c =
     (if 0x41 \<le> c \<and> c \<le> 0x5A then [c + 0x20]
      else if c = 0x212A then [0x6B]
      else if c = 0x130 then [0x69, 0x307]
      else [c])"

definition toLowerCase :: "jsstring \<Rightarrow> jsstring" where
  "toLowerCase s = concat (map lower_unit s)"

section \<open>The regular expressions of the parser\<close>

text \<open>
  Both patterns of \<open>parseAndQueueComments\<close> are sequences of literals and greedy
  repetitions of one character class, some of them captured. \<open>rx_at\<close> matches such a
  sequence at the start of a string the way a backtracking matcher does: a repetition takes
  the longest run first and gives code units back one at a time while the rest of the pattern
  fails. \<open>rx_search\<close> is \<open>String.prototype.match\<close> without the \<open>g\<close> flag: the first
  start position with a match wins; the result is the list of captured groups.
\<close>

datatype item =
    Lit jsstring
  | Rep bool nat "nat \<Rightarrow> bool"  \<comment> \<open>captured?, least count, class\<close>

fun rx_at :: "item list \<Rightarrow> jsstring \<Rightarrow> jsstring list \<Rightarrow> jsstring list option"
and rx_rep :: "bool \<Rightarrow> nat \<Rightarrow> item list \<Rightarrow> nat \<Rightarrow> jsstring \<Rightarrow> jsstring list \<Rightarrow> jsstring list option"
where
  "rx_at [] s caps = Some caps"
| "rx_at (Lit l # r) s caps =
     (if starts_with s l then rx_at r (drop (length l) s) caps else None)"
| "rx_at (Rep cap mn cls # r) s caps =
     rx_rep cap mn r (length (takeWhile cls s)) s caps"
| "rx_rep cap mn r n s caps =
     (if n < mn then None
      else (case rx_at r (drop n s) (if cap then caps @ [take n s] else caps) of
              Some g \<Rightarrow> Some g
            | None \<Rightarrow> (if n = 0 then None else rx_rep cap mn r (n - 1) s caps)))"

fun rx_search :: "item list \<Rightarrow> jsstring \<Rightarrow> jsstring list option" where
  "rx_search p [] = rx_at p [] []"
| "rx_search p (c # cs) =
     (case rx_at p (c # cs) [] of Some g \<Rightarrow> Some g | None \<Rightarrow> rx_search p cs)"

definition new_message_re :: "item list" where
  \<comment> \<open>\<open>/New message from ([^:]+):\s*(.+)/\<close>\<close>
  "new_message_re =
     [Lit (js ''New message from ''), Rep True 1 not_colon, Lit (js '':''),
      Rep False 0 is_white_space, Rep True 1 is_dot_char]"

definition word_colon_re :: "item list" where
  \<comment> \<open>\<open>/(\w+):\s*(.+)/\<close>\<close>
  "word_colon_re =
     [Rep True 1 is_word_char, Lit (js '':''), Rep False 0 is_white_space, Rep True 1 is_dot_char]"

section \<open>Values decoded from JSON\<close>

text \<open>
  \<open>JSON.parse\<close> yields null, a boolean, a number, a string, an array or an object. A
  number is held as what \<open>ToString\<close> makes of it: that rendering tells two numbers apart
  except the two zeros, which truthiness, string conversion and set membership do not tell
  apart either. The properties of an object are kept in the order of the text; a later binding
  of a name replaces an earlier one.
\<close>

datatype jsval =
    JNull
  | JBool bool
  | JNum jsstring
  | JStr jsstring
  | JArr "jsval list"
  | JObj "(jsstring \<times> jsval) list"

datatype error = SyntaxError | TypeError

fun truthy :: "jsval \<Rightarrow> bool" where
  "truthy JNull = False"
| "truthy (JBool b) = b"
| "truthy (JNum n) = (n \<noteq> js ''0'' \<and> n \<noteq> js ''NaN'')"
| "truthy (JStr s) = (s \<noteq> [])"
| "truthy (JArr xs) = True"
| "truthy (JObj kv) = True"


text \<open>
  Reading one of the properties \<open>type\<close>, \<open>user\<close>, \<open>text\<close>, \<open>id\<close>, \<open>username\<close>,
  \<open>tokenAddress\<close>: none of them is inherited, so only an object can have one. Reading a
  property of null raises.
\<close>

fun get_prop :: "jsval \<Rightarrow> jsstring \<Rightarrow> error + jsval option" where
  "get_prop JNull k = Inl TypeError"
| "get_prop (JObj kv) k = Inr (map_of (rev kv) k)"
| "get_prop v k = Inr None"

text \<open>
  String conversion, as a template literal performs it. An object decoded from JSON holds no
  function, so an own property \<open>toString\<close> disables the inherited method and the conversion
  raises; without it the result is the fixed text. An array joins its elements with commas,
  null elements contributing nothing.
\<close>

fun to_str :: "jsval \<Rightarrow> error + jsstring"
and join_elems :: "jsval list \<Rightarrow> error + jsstring"
where
  "to_str JNull = Inr (js ''null'')"
| "to_str (JBool b) = Inr (if b then js ''true'' else js ''false'')"
| "to_str (JNum n) = Inr n"
| "to_str (JStr s) = Inr s"
| "to_str (JArr xs) = join_elems xs"
| "to_str (JObj kv) =
     (if js ''toString'' \<in> fst ` set kv then Inl TypeError else Inr (js ''[object Object]''))"
| "join_elems [] = Inr []"
| "join_elems (x # xs) =
     (case (if x = JNull then Inr [] else to_str x) of
        Inl e \<Rightarrow> Inl e
      | Inr a \<Rightarrow>
          (if xs = [] then Inr a
           else (case join_elems xs of Inl e \<Rightarrow> Inl e | Inr b \<Rightarrow> Inr (a @ js '','' @ b))))"

text \<open>A value that string conversion accepts.\<close>

definition converts :: "jsval \<Rightarrow> bool" where
  "converts v = (case to_str v of Inl e \<Rightarrow> False | Inr s \<Rightarrow> True)"

section \<open>Comment identity\<close>

text \<open>
  A comment id is what \<open>queueComment\<close> stores in \<open>processedComments\<close>, a \<open>Set\<close>: a
  primitive value, compared by value, or an array or object, compared by reference. A
  reference is a number drawn from a counter; each parse builds new objects.
\<close>

datatype idval =
    IdNull
  | IdBool bool
  | IdNum jsstring
  | IdStr jsstring
  | IdRef nat

fun truthy_id :: "idval \<Rightarrow> bool" where
  "truthy_id IdNull = False"
| "truthy_id (IdBool b) = b"
| "truthy_id (IdNum n) = (n \<noteq> js ''0'' \<and> n \<noteq> js ''NaN'')"
| "truthy_id (IdStr s) = (s \<noteq> [])"
| "truthy_id (IdRef r) = True"

record comment =
  id_comment :: idval
  user :: jsval
  message :: jsval
  timestamp :: nat

text \<open>
  The host functions the program calls and does not define: the MD5 digest in hexadecimal
  (\<open>crypto.createHash('md5').update(s).digest('hex')\<close>) and \<open>JSON.parse\<close>, \<open>None\<close> when
  it throws.
\<close>

record host =
  md5_hex :: "jsstring \<Rightarrow> jsstring"
  JSON_parse :: "jsstring \<Rightarrow> jsval option"

section \<open>The application state\<close>

text \<open>
  Where a call of \<open>processNextComment\<close> is suspended: at the await on
  \<open>generateResponse\<close>, holding the comment and the random draw made so far, or at the await
  on the promise of \<open>speakResponse\<close>, holding the number of that promise.
\<close>

datatype task =
    AwaitGenerate comment nat
  | AwaitSpeak nat

text \<open>What the program does to the world outside it, in order.\<close>

datatype effect =
    Kill nat                    \<comment> \<open>\<open>mcpProcess.kill()\<close>\<close>
  | Spawn nat jsval             \<comment> \<open>\<open>spawn\<close>, with the token it hands to the child\<close>
  | SetInterval                 \<comment> \<open>\<open>startQueueProcessor\<close>\<close>
  | Respond nat                 \<comment> \<open>the HTTP status of a response\<close>
  | SaySpeak jsstring           \<comment> \<open>\<open>say.speak\<close> called\<close>
  | Animate jsstring            \<comment> \<open>\<open>triggerAvatarAnimation\<close>\<close>

text \<open>
  The fields of \<open>PumpFunChatApp\<close> set by its constructor, then what the runtime holds for
  it: the reference counter, the child processes spawned, the interval timers and restart
  timers pending, the suspended calls of \<open>processNextComment\<close>, the promises made by
  \<open>speakResponse\<close> with those resolved, the speech timeouts still armed (promise number
  to delay in milliseconds), the \<open>say.speak\<close> callbacks still outstanding, and the effects
  so far.
\<close>

record app =
  commentQueue :: "comment list"
  processedComments :: "idval set"
  isProcessing :: bool
  username :: jsval
  tokenAddress :: jsval
  mcpProcess :: "nat option"
  textGenerator :: bool
  currentlySpeaking :: bool
  ttsDisabled :: bool
  heapNext :: nat
  spawned :: nat
  intervals :: nat
  restartTimers :: nat
  inflight :: "task list"
  promises :: nat
  resolved :: "nat set"
  ttsTimers :: "nat \<Rightarrow> nat option"
  sayPending :: "nat set"
  effects :: "effect list"

definition constructor :: app where
  "constructor =
     \<lparr> commentQueue = [], processedComments = {}, isProcessing = False,
       username = JNull, tokenAddress = JNull, mcpProcess = None, textGenerator = False,
       currentlySpeaking = False, ttsDisabled = False,
       heapNext = 0, spawned = 0, intervals = 0, restartTimers = 0, inflight = [],
       promises = 0, resolved = {}, ttsTimers = Map.empty, sayPending = {}, effects = [] \<rparr>"

section \<open>Intake: \<open>queueComment\<close>\<close>

text \<open>
  The id \<open>queueComment\<close> gives a comment. The digest is computed first, from
  \<open>user:message\<close>, whether or not an id was provided, so a user or message that cannot be
  converted to a string raises before anything else happens.
\<close>

definition commentId :: "host \<Rightarrow> jsval \<Rightarrow> jsval \<Rightarrow> idval \<Rightarrow> error + idval" where
  "commentId H usr msg providedId =
     (case to_str usr of
        Inl e \<Rightarrow> Inl e
      | Inr us \<Rightarrow>
          (case to_str msg of
             Inl e \<Rightarrow> Inl e
           | Inr ms \<Rightarrow>
               (let contentHash = take 8 (md5_hex H (us @ js '':'' @ ms))
                in Inr (if truthy_id providedId then providedId
                        else IdStr (us @ js ''_'' @ contentHash)))))"

text \<open>\<open>now\<close> is the reading of \<open>Date.now()\<close>.\<close>

definition queueComment :: "host \<Rightarrow> nat \<Rightarrow> app \<Rightarrow> jsval \<Rightarrow> jsval \<Rightarrow> idval \<Rightarrow> error + app" where
  "queueComment H now st usr msg providedId =
     (case commentId H usr msg providedId of
        Inl e \<Rightarrow> Inl e
      | Inr cid \<Rightarrow>
          (if cid \<in> processedComments st then Inr st
           else Inr (st\<lparr>commentQueue := commentQueue st @
                  [\<lparr>id_comment = cid, user = usr, message = msg, timestamp = now\<rparr>]\<rparr>)))"

section \<open>The output line parser\<close>

text \<open>
  \<open>data.id || null\<close>: a falsy or absent id is null; an array or object id is a new
  reference.
\<close>

fun provided_id :: "nat \<Rightarrow> jsval option \<Rightarrow> idval" where
  "provided_id r None = IdNull"
| "provided_id r (Some JNull) = IdNull"
| "provided_id r (Some (JBool b)) = (if b then IdBool b else IdNull)"
| "provided_id r (Some (JNum n)) = (if truthy (JNum n) then IdNum n else IdNull)"
| "provided_id r (Some (JStr s)) = (if truthy (JStr s) then IdStr s else IdNull)"
| "provided_id r (Some (JArr xs)) = IdRef r"
| "provided_id r (Some (JObj kv)) = IdRef r"

fun is_reference :: "jsval option \<Rightarrow> bool" where
  "is_reference (Some (JArr xs)) = True"
| "is_reference (Some (JObj kv)) = True"
| "is_reference _ = False"

text \<open>The body of the inner \<open>try\<close>: the line as a JSON record.\<close>

definition json_branch :: "host \<Rightarrow> nat \<Rightarrow> app \<Rightarrow> jsstring \<Rightarrow> error + app" where
  "json_branch H now st line =
     (case JSON_parse H line of
        None \<Rightarrow> Inl SyntaxError
      | Some data \<Rightarrow>
          (case get_prop data (js ''type'') of
             Inl e \<Rightarrow> Inl e
           | Inr ty \<Rightarrow>
               (case (get_prop data (js ''user''), get_prop data (js ''text''), get_prop data (js ''id'')) of
                  (Inr (Some u), Inr (Some t), Inr i) \<Rightarrow>
                    (if ty = Some (JStr (js ''message'')) \<and> truthy u \<and> truthy t
                     then queueComment H now
                            (if is_reference i then st\<lparr>heapNext := Suc (heapNext st)\<rparr> else st)
                            u t (provided_id (heapNext st) i)
                     else Inr st)
                | _ \<Rightarrow> Inr st)))"

text \<open>The destructuring \<open>[, user, message]\<close> of a match with two groups.\<close>

fun two_groups :: "jsstring list option \<Rightarrow> (jsstring \<times> jsstring) option" where
  "two_groups (Some [a, b]) = Some (a, b)"
| "two_groups _ = None"

text \<open>The body of the inner \<open>catch\<close>: the two plain-text formats.\<close>

definition regex_branch :: "host \<Rightarrow> nat \<Rightarrow> app \<Rightarrow> jsstring \<Rightarrow> error + app" where
  "regex_branch H now st line =
     (case two_groups (rx_search new_message_re line) of
        Some (usr, msg) \<Rightarrow> queueComment H now st (JStr (trim usr)) (JStr (trim msg)) IdNull
      | None \<Rightarrow>
          (if includes_str line (js ''message:'') \<or> includes_str line (js ''chat:'')
              \<or> includes_str line (js '':'')
           then (case two_groups (rx_search word_colon_re line) of
                   Some (usr, msg) \<Rightarrow> queueComment H now st (JStr usr) (JStr (trim msg)) IdNull
                 | None \<Rightarrow> Inr st)
           else Inr st))"

text \<open>
  The callback of \<open>lines.forEach\<close>. \<open>Inl\<close> is an exception that leaves the callback. An
  exception of the \<open>try\<close> block is raised before the queue is written, so the \<open>catch\<close>
  block starts from the state the line was entered with.
\<close>

definition processLine :: "host \<Rightarrow> nat \<Rightarrow> app \<Rightarrow> jsstring \<Rightarrow> error + app" where
  "processLine H now st line =
     (if trim line = [] then Inr st
      else (case json_branch H now st line of
              Inr st' \<Rightarrow> Inr st'
            | Inl e \<Rightarrow> regex_branch H now st line))"

text \<open>
  \<open>forEach\<close> stops at the first exception of its callback; the outer \<open>catch\<close> of
  \<open>parseAndQueueComments\<close> then logs it and the function returns with the state reached.
\<close>

fun forEach_line :: "host \<Rightarrow> nat \<Rightarrow> app \<Rightarrow> jsstring list \<Rightarrow> (error \<times> app) + app" where
  "forEach_line H now st [] = Inr st"
| "forEach_line H now st (l # ls) =
     (case processLine H now st l of
        Inl e \<Rightarrow> Inl (e, st)
      | Inr st' \<Rightarrow> forEach_line H now st' ls)"

definition parseAndQueueComments :: "host \<Rightarrow> nat \<Rightarrow> app \<Rightarrow> jsstring \<Rightarrow> app" where
  "parseAndQueueComments H now st mcpOutput =
     (case forEach_line H now st (split_nl mcpOutput) of
        Inr st' \<Rightarrow> st'
      | Inl (e, st') \<Rightarrow> st')"

section \<open>The response generator\<close>

definition funnyResponses :: "jsstring \<Rightarrow> jsstring list" where
  "funnyResponses us =
     [us @ js '', you'' @ [0x27] @ js ''re absolutely right! I'' @ [0x27] @ js ''m just here vibing in the digital realm '' @ [0xD83D, 0xDCAB],
      js ''Hey '' @ us @ js ''! Welcome to the future where AI avatars actually respond - wild times! '' @ [0xD83D, 0xDE80],
      us @ js '', I see you there! This chat bot has evolved beyond your wildest dreams '' @ [0xD83E, 0xDD16, 0x2728],
      js ''Yo '' @ us @ js ''! Thanks for testing me out - I promise I'' @ [0x27] @ js ''m more fun than your average bot '' @ [0xD83D, 0xDE0E],
      us @ js '', you'' @ [0x27] @ js ''ve discovered the secret - I'' @ [0x27] @ js ''m actually listening! Mind = blown '' @ [0xD83E, 0xDDE0, 0xD83D, 0xDCA5],
      js ''What'' @ [0x27] @ js ''s up '' @ us @ js ''! You found the AI that actually talks back - plot twist! '' @ [0xD83C, 0xDFAD],
      us @ js '', confirmed: I can read, I can speak, and I probably think crypto memes are funny '' @ [0xD83D, 0xDCC8, 0xD83D, 0xDE02],
      js ''Hey '' @ us @ js ''! Breaking news: Your AI avatar is now online and slightly sarcastic '' @ [0xD83D, 0xDDDE, 0xFE0F],
      us @ js '', you'' @ [0x27] @ js ''ve unlocked the achievement: '' @ [0x22] @ js ''Made an AI Respond'' @ [0x22] @ js '' - legendary! '' @ [0xD83C, 0xDFC6],
      js ''Greetings '' @ us @ js ''! Your local cyberpunk AI reporting for duty in this digital chaos '' @ [0xD83C, 0xDF06, 0x26A1]]"

definition cryptoResponses :: "jsstring \<Rightarrow> jsstring list" where
  "cryptoResponses us =
     [us @ js '', to the moon? More like to the metaverse! '' @ [0xD83C, 0xDF19, 0xD83D, 0xDE80],
      us @ js '', diamond hands meet digital soul - what could go wrong? '' @ [0xD83D, 0xDC8E, 0xD83E, 0xDD16],
      us @ js '', when DeFi meets AI - this is what peak innovation looks like! '' @ [0xD83D, 0xDD25],
      us @ js '', hodling conversations now, not just coins! '' @ [0xD83D, 0xDCB0, 0xD83D, 0xDCAC],
      us @ js '', probably nothing... except an AI that actually gets crypto culture! '' @ [0xD83D, 0xDCCA, 0x26A1]]"

definition cryptoTerms :: "jsstring list" where
  "cryptoTerms =
     [js ''moon'', js ''diamond'', js ''hodl'', js ''pump'', js ''gem'', js ''ape'', js ''wagmi'',
      js ''gm'', js ''probably nothing'']"

definition fallbackResponse :: "jsstring \<Rightarrow> jsstring" where
  "fallbackResponse us =
     us @ js '', something went wrong but I'' @ [0x27] @ js ''m still vibing! '' @ [0xD83E, 0xDD16, 0x2728]"

definition enhancementPrompt :: "jsstring \<Rightarrow> jsstring" where
  "enhancementPrompt selectedResponse =
     js ''Make this funnier and more engaging: '' @ [0x22] @ selectedResponse @ [0x22]"

text \<open>\<open>s.replace(pat, rep)\<close> with a string pattern: the first occurrence only.\<close>

fun replace_first :: "jsstring \<Rightarrow> jsstring \<Rightarrow> jsstring \<Rightarrow> jsstring" where
  "replace_first [] pat rep = (if pat = [] then rep else [])"
| "replace_first (c # cs) pat rep =
     (if starts_with (c # cs) pat then rep @ drop (length pat) (c # cs)
      else c # replace_first cs pat rep)"

definition containsCrypto :: "jsstring \<Rightarrow> bool" where
  "containsCrypto msg =
     list_ex (\<lambda>trm. includes_str (toLowerCase msg) (toLowerCase trm)) cryptoTerms"

text \<open>
  \<open>Math.floor(Math.random() * n)\<close> is some index below \<open>n\<close>; the draw is a number
  \<open>d\<close>, taken modulo the length of the pool.
\<close>

definition selectResponse :: "jsstring \<Rightarrow> jsstring \<Rightarrow> nat \<Rightarrow> jsstring" where
  "selectResponse us msg d =
     (let responsePool = (if containsCrypto msg then cryptoResponses us else funnyResponses us)
      in responsePool ! (d mod length responsePool))"

text \<open>
  What the call of the text generator comes to: it throws, rejects or returns something
  without a text at \<open>result[0].generated_text\<close>, or it returns that text.
\<close>

datatype backend = BackendFails | BackendText jsstring

text \<open>
  The body of the outer \<open>try\<close>. The templates convert \<open>comment.user\<close> to a string; a
  message that is no string has no \<open>toLowerCase\<close>.
\<close>

definition generate_try :: "bool \<Rightarrow> comment \<Rightarrow> nat \<Rightarrow> backend \<Rightarrow> error + jsstring" where
  "generate_try tg c d b =
     (case to_str (user c) of
        Inl e \<Rightarrow> Inl e
      | Inr us \<Rightarrow>
          (case message c of
             JStr msg \<Rightarrow>
               (let selectedResponse = selectResponse us msg d
                in if tg then
                     (case b of
                        BackendFails \<Rightarrow> Inr selectedResponse
                      | BackendText generated_text \<Rightarrow>
                          (let enhanced = trim (replace_first generated_text
                                                  (enhancementPrompt selectedResponse) [])
                           in if enhanced \<noteq> [] \<and> length enhanced > 10 \<and> length enhanced < 150
                              then Inr enhanced else Inr selectedResponse))
                   else Inr selectedResponse)
           | _ \<Rightarrow> Inl TypeError))"

definition generateResponse :: "bool \<Rightarrow> comment \<Rightarrow> nat \<Rightarrow> backend \<Rightarrow> error + jsstring" where
  "generateResponse tg c d b =
     (case generate_try tg c d b of
        Inr r \<Rightarrow> Inr r
      | Inl e \<Rightarrow>
          (case to_str (user c) of
             Inl e' \<Rightarrow> Inl e'
           | Inr us \<Rightarrow> Inr (fallbackResponse us)))"

section \<open>The speech announcer\<close>

text \<open>
  The executor of the promise \<open>speakResponse\<close> returns; \<open>sayThrows\<close> tells whether
  \<open>say.speak\<close> raises. The promise made has the number \<open>promises st\<close>.
\<close>

definition speakResponse :: "bool \<Rightarrow> app \<Rightarrow> jsstring \<Rightarrow> app" where
  "speakResponse sayThrows st response =
     (let n = promises st;
          st1 = st\<lparr>promises := Suc n, currentlySpeaking := True\<rparr>
      in if ttsDisabled st1 then
           st1\<lparr>currentlySpeaking := False, resolved := insert n (resolved st1),
               effects := effects st1 @ [Animate response]\<rparr>
         else
           (let st2 = st1\<lparr>ttsTimers := (ttsTimers st1)(n \<mapsto> 5000),
                           effects := effects st1 @ [SaySpeak response]\<rparr>
            in if sayThrows then
                 st2\<lparr>ttsDisabled := True, currentlySpeaking := False,
                     resolved := insert n (resolved st2),
                     effects := effects st2 @ [Animate response]\<rparr>
               else
                 st2\<lparr>sayPending := insert n (sayPending st2),
                     effects := effects st2 @ [Animate response]\<rparr>))"

text \<open>The callback of \<open>setTimeout\<close>, for the promise \<open>n\<close>; it runs only while armed.\<close>

definition tts_timeout :: "nat \<Rightarrow> app \<Rightarrow> app" where
  "tts_timeout n st =
     (if n \<in> dom (ttsTimers st) then
        st\<lparr>ttsTimers := (ttsTimers st)(n := None), ttsDisabled := True,
           currentlySpeaking := False, resolved := insert n (resolved st)\<rparr>
      else st)"

text \<open>The callback given to \<open>say.speak\<close>, for the promise \<open>n\<close>, with or without an error.\<close>

definition say_callback :: "nat \<Rightarrow> bool \<Rightarrow> app \<Rightarrow> app" where
  "say_callback n err st =
     (if n \<in> sayPending st then
        st\<lparr>sayPending := sayPending st - {n}, ttsTimers := (ttsTimers st)(n := None),
           ttsDisabled := (err \<or> ttsDisabled st),
           currentlySpeaking := False, resolved := insert n (resolved st)\<rparr>
      else st)"

section \<open>The sequential processor\<close>

text \<open>
  \<open>processNextComment\<close> up to its first await: the guard, the flag, the shift, the log
  line, the id marked as processed, and the call of \<open>generateResponse\<close>, whose random draw
  is \<open>d\<close>. The log line converts the user and the message of the comment to strings; if
  that raises, the \<open>catch\<close> block logs, \<open>finally\<close> resets the flag, and the comment is
  gone without being marked.
\<close>

definition processNextComment :: "nat \<Rightarrow> app \<Rightarrow> app" where
  "processNextComment d st =
     (if isProcessing st then st
      else (case commentQueue st of
              [] \<Rightarrow> st
            | c # q \<Rightarrow>
                (let st1 = st\<lparr>isProcessing := True, commentQueue := q\<rparr>
                 in if converts (user c) \<and> converts (message c) then
                      st1\<lparr>processedComments := insert (id_comment c) (processedComments st1),
                          inflight := inflight st1 @ [AwaitGenerate c d]\<rparr>
                    else st1\<lparr>isProcessing := False\<rparr>)))"

text \<open>The \<open>finally\<close> block, for the call suspended at position \<open>i\<close>.\<close>

definition finally_block :: "nat \<Rightarrow> app \<Rightarrow> app" where
  "finally_block i st =
     st\<lparr>isProcessing := False, inflight := take i (inflight st) @ drop (Suc i) (inflight st)\<rparr>"

text \<open>
  The call resumes with the result of \<open>generateResponse\<close>: an exception goes to the
  \<open>catch\<close> block, which logs it, and on to \<open>finally\<close>; a response goes to
  \<open>speakResponse\<close>, and the call waits for its promise.
\<close>

definition after_generate :: "nat \<Rightarrow> error + jsstring \<Rightarrow> bool \<Rightarrow> app \<Rightarrow> app" where
  "after_generate i r sayThrows st =
     (case r of
        Inl e \<Rightarrow> finally_block i st
      | Inr response \<Rightarrow>
          (speakResponse sayThrows st response)
            \<lparr>inflight := (inflight st)[i := AwaitSpeak (promises st)]\<rparr>)"

text \<open>The callback of \<open>setInterval\<close> in \<open>startQueueProcessor\<close>.\<close>

definition interval_tick :: "nat \<Rightarrow> app \<Rightarrow> app" where
  "interval_tick d st =
     (if \<not> isProcessing st \<and> length (commentQueue st) > 0 then processNextComment d st else st)"

section \<open>The HTTP endpoints and the child process\<close>

definition startQueueProcessor :: "app \<Rightarrow> app" where
  "startQueueProcessor st =
     st\<lparr>intervals := Suc (intervals st), effects := effects st @ [SetInterval]\<rparr>"

text \<open>
  \<open>spawn\<close> validates what it is given before it starts a process: a string among the
  arguments of the program, or among the values of \<open>env\<close>, that holds the code unit 0 makes
  it raise a \<open>TypeError\<close>. A value that is not a string passes the check.
\<close>

fun spawn_rejects :: "jsval \<Rightarrow> bool" where
  "spawn_rejects (JStr s) = (0 \<in> set s)"
| "spawn_rejects v = False"

text \<open>
  \<open>startPumpFunChat\<close> kills the stored process, logs the token, spawns and starts the
  processor. The log line converts the token to a string, and \<open>spawn\<close> validates it;
  \<open>Inl\<close> is the exception of either with the state reached: the old process killed and
  still stored, nothing spawned, no processor started.
\<close>

definition startPumpFunChat :: "app \<Rightarrow> (error \<times> app) + app" where
  "startPumpFunChat st =
     (let st1 = (case mcpProcess st of
                   Some p \<Rightarrow> st\<lparr>effects := effects st @ [Kill p]\<rparr>
                 | None \<Rightarrow> st)
      in if \<not> converts (tokenAddress st1) then Inl (TypeError, st1)
         else if spawn_rejects (tokenAddress st1) then Inl (TypeError, st1)
         else (let p' = spawned st1;
                   st2 = st1\<lparr>mcpProcess := Some p', spawned := Suc p',
                             effects := effects st1 @ [Spawn p' (tokenAddress st1)]\<rparr>
               in Inr (startQueueProcessor st2)))"

text \<open>
  \<open>POST /start\<close>; \<open>body\<close> holds the properties of \<open>req.body\<close>. The default of
  \<open>username\<close> applies when the property is absent. The handler stores both values, then
  logs them, which converts them to strings. An exception that leaves the handler is answered
  by the framework with status 500.
\<close>

definition post_start :: "(jsstring \<times> jsval) list \<Rightarrow> app \<Rightarrow> app" where
  "post_start body st =
     (let usr = (case map_of (rev body) (js ''username'') of
                   None \<Rightarrow> JStr (js ''AI Avatar'')
                 | Some v \<Rightarrow> v);
          tok = map_of (rev body) (js ''tokenAddress'')
      in (case tok of
            None \<Rightarrow> st\<lparr>effects := effects st @ [Respond 400]\<rparr>
          | Some t \<Rightarrow>
              (if \<not> truthy t then st\<lparr>effects := effects st @ [Respond 400]\<rparr>
               else (let st1 = st\<lparr>username := usr, tokenAddress := t\<rparr>
                     in if converts usr \<and> converts t then
                          (case startPumpFunChat st1 of
                             Inr st2 \<Rightarrow> st2\<lparr>effects := effects st2 @ [Respond 200]\<rparr>
                           | Inl (e, st2) \<Rightarrow> st2\<lparr>effects := effects st2 @ [Respond 500]\<rparr>)
                        else st1\<lparr>effects := effects st1 @ [Respond 500]\<rparr>))))"

text \<open>\<open>GET /status\<close>: what the response reports.\<close>

datatype status_report = Status nat bool bool nat
  \<comment> \<open>\<open>queueLength\<close>, \<open>isProcessing\<close>, \<open>currentlySpeaking\<close>, \<open>processedCount\<close>\<close>

definition get_status :: "app \<Rightarrow> status_report" where
  "get_status st =
     Status (length (commentQueue st)) (isProcessing st) (currentlySpeaking st)
       (card (processedComments st))"

fun reports_speaking :: "status_report \<Rightarrow> bool" where
  "reports_speaking (Status q p s n) = s"

text \<open>
  The restart callback, five seconds after a child process closed. An exception that leaves it
  goes to the handler of \<open>uncaughtException\<close>, which logs it.
\<close>

definition restart_timeout :: "app \<Rightarrow> app" where
  "restart_timeout st =
     (if truthy (tokenAddress st) then
        (case startPumpFunChat st of Inr st' \<Rightarrow> st' | Inl (e, st') \<Rightarrow> st')
      else st)"

section \<open>The events of a run\<close>

text \<open>
  The program runs one callback at a time. An event is one callback with what the outside
  world decides for it; an event that cannot occur in a state (a timer that is not armed, a
  call that is not suspended there) leaves the state as it is. The model loading of
  \<open>initialize\<close> ends before the server listens.
\<close>

datatype event =
    InitializeAI bool                       \<comment> \<open>the model loaded, or not\<close>
  | PostStart "(jsstring \<times> jsval) list"
  | GetStatus
  | ProcessData jsstring nat                \<comment> \<open>a chunk on stdout or stderr, and \<open>Date.now()\<close>\<close>
  | ProcessClose nat
  | RestartTimeout
  | IntervalTick nat                        \<comment> \<open>with the random draw\<close>
  | GenerateSettles nat backend bool        \<comment> \<open>position, text generator, \<open>say.speak\<close> raises\<close>
  | TtsTimeout nat
  | SayCallback nat bool
  | SpeakSettles nat

fun handle :: "host \<Rightarrow> event \<Rightarrow> app \<Rightarrow> app" where
  "handle H (InitializeAI ok) st =
     (if spawned st = 0 then st\<lparr>textGenerator := ok\<rparr> else st)"
| "handle H (PostStart body) st = post_start body st"
| "handle H GetStatus st = st\<lparr>effects := effects st @ [Respond 200]\<rparr>"
| "handle H (ProcessData chunk now) st =
     (if spawned st = 0 then st else parseAndQueueComments H now st chunk)"
| "handle H (ProcessClose p) st =
     (if p < spawned st then st\<lparr>restartTimers := Suc (restartTimers st)\<rparr> else st)"
| "handle H RestartTimeout st =
     (if restartTimers st = 0 then st
      else restart_timeout (st\<lparr>restartTimers := restartTimers st - 1\<rparr>))"
| "handle H (IntervalTick d) st =
     (if intervals st = 0 then st else interval_tick d st)"
| "handle H (GenerateSettles i b sayThrows) st =
     (if i < length (inflight st) then
        (case inflight st ! i of
           AwaitGenerate c d \<Rightarrow>
             after_generate i (generateResponse (textGenerator st) c d b) sayThrows st
         | AwaitSpeak n \<Rightarrow> st)
      else st)"
| "handle H (TtsTimeout n) st = tts_timeout n st"
| "handle H (SayCallback n err) st = say_callback n err st"
| "handle H (SpeakSettles i) st =
     (if i < length (inflight st) then
        (case inflight st ! i of
           AwaitSpeak n \<Rightarrow> (if n \<in> resolved st then finally_block i st else st)
         | AwaitGenerate c d \<Rightarrow> st)
      else st)"

definition run :: "host \<Rightarrow> event list \<Rightarrow> app \<Rightarrow> app" where
  "run H evs st = foldl (\<lambda>s ev. handle H ev s) st evs"

section \<open>Auxiliary definitions for the proofs\<close>

text \<open>
  The promise a suspended call waits for, or will wait for once \<open>generateResponse\<close> has
  settled: the next promise \<open>speakResponse\<close> makes.
\<close>

definition awaited :: "app \<Rightarrow> nat" where
  "awaited st = (case inflight st of [AwaitSpeak n] \<Rightarrow> n | _ \<Rightarrow> promises st)"

text \<open>What holds of the suspended calls in every state of a run.\<close>

fun flight_ok :: "app \<Rightarrow> task list \<Rightarrow> bool" where
  "flight_ok st [] = (\<not> isProcessing st \<and> \<not> currentlySpeaking st)"
| "flight_ok st [AwaitGenerate c d] =
     (isProcessing st \<and> \<not> currentlySpeaking st \<and> id_comment c \<in> processedComments st)"
| "flight_ok st [AwaitSpeak n] =
     (isProcessing st \<and> n < promises st
      \<and> (n \<notin> resolved st \<longrightarrow> ttsTimers st n = Some 5000 \<and> n \<in> sayPending st)
      \<and> (currentlySpeaking st \<longrightarrow> n \<notin> resolved st))"
| "flight_ok st (t # u # ts) = False"

definition run_inv :: "app \<Rightarrow> bool" where
  "run_inv st =
     ((\<forall>n \<in> resolved st. n < promises st)
      \<and> (\<forall>n \<in> sayPending st. n < promises st)
      \<and> (\<forall>n. ttsTimers st n \<noteq> None \<longrightarrow> n < promises st)
      \<and> flight_ok st (inflight st))"

text \<open>A state without what the intake writes: the queue and the reference counter.\<close>

definition erase_intake :: "app \<Rightarrow> app" where
  "erase_intake st = st\<lparr>commentQueue := [], heapNext := 0\<rparr>"

text \<open>
  A state without what the start endpoint and the restart callback write.
\<close>

definition erase_control :: "app \<Rightarrow> app" where
  "erase_control st =
     st\<lparr>username := JNull, tokenAddress := JNull, mcpProcess := None, spawned := 0,
        intervals := 0, effects := []\<rparr>"

text \<open>
  The states in which the user and the message of every comment, queued or being answered,
  convert to strings.
\<close>

definition comment_converts :: "comment \<Rightarrow> bool" where
  "comment_converts c = (converts (user c) \<and> converts (message c))"

fun task_converts :: "task \<Rightarrow> bool" where
  "task_converts (AwaitGenerate c d) = comment_converts c"
| "task_converts (AwaitSpeak n) = True"

definition comments_convert :: "app \<Rightarrow> bool" where
  "comments_convert st =
     ((\<forall>c \<in> set (commentQueue st). comment_converts c)
      \<and> (\<forall>t \<in> set (inflight st). task_converts t))"

text \<open>
  A host for the examples: it knows the digest of one text and answers every other with the
  digest of the empty text; its \<open>JSON.parse\<close> rejects every line.
\<close>

definition demo_host :: host where
  "demo_host =
     \<lparr> md5_hex = (\<lambda>s. if s = js ''alice:gm wagmi'' then js ''6e819aefdb1e6de225dde138863390d6''
                       else js ''d41d8cd98f00b204e9800998ecf8427e''),
       JSON_parse = (\<lambda>s. None) \<rparr>"

text \<open>
  A second host for the examples, whose \<open>JSON.parse\<close> decodes one record with an id, and
  \<open>null\<close>.
\<close>

definition quoted :: "jsstring \<Rightarrow> jsstring" where
  "quoted s = [0x22] @ s @ [0x22]"

definition demo_json_line :: jsstring where
  "demo_json_line =
     js ''{'' @ quoted (js ''type'') @ js '':'' @ quoted (js ''message'') @ js '','' @
     quoted (js ''user'') @ js '':'' @ quoted (js ''bob'') @ js '','' @
     quoted (js ''text'') @ js '':'' @ quoted (js ''to the moon'') @ js '','' @
     quoted (js ''id'') @ js '':'' @ quoted (js ''m1'') @ js ''}''"

definition json_host :: host where
  "json_host =
     \<lparr> md5_hex = (\<lambda>s. js ''d41d8cd98f00b204e9800998ecf8427e''),
       JSON_parse = (\<lambda>s. if s = demo_json_line
                          then Some (JObj [(js ''type'', JStr (js ''message'')),
                                           (js ''user'', JStr (js ''bob'')),
                                           (js ''text'', JStr (js ''to the moon'')),
                                           (js ''id'', JStr (js ''m1''))])
                          else if s = js ''null'' then Some JNull else None) \<rparr>"

text \<open>
  A run for the examples: monitoring starts, one line arrives, a tick takes the comment, the
  response is picked and speech starts; then the speech timeout fires.
\<close>

definition demo_body :: "(jsstring \<times> jsval) list" where
  "demo_body = [(js ''tokenAddress'', JStr (js ''So1anaT0ken''))]"



definition demo_intake :: "event list" where
  "demo_intake =
     [PostStart demo_body, ProcessData (js ''New message from alice: gm wagmi'') 1000]"

definition demo_generating :: "event list" where
  "demo_generating = demo_intake @ [IntervalTick 7]"

definition demo_speaking :: "event list" where
  "demo_speaking = demo_intake @ [IntervalTick 7, GenerateSettles 0 BackendFails False]"

definition demo_timed_out :: "event list" where
  "demo_timed_out = demo_speaking @ [TtsTimeout 0]"

section \<open>The earlier copy of the class\<close>

text \<open>
  The copy of the class in \<open>app.js\<close> has no \<open>queueComment\<close>: its parser knows the
  format \<open>word: rest\<close> only, on lines that hold \<open>message:\<close> or \<open>chat:\<close>, and builds
  the id of a comment itself, from the user, the message as matched and the reading of
  \<open>Date.now()\<close> in decimal. Nothing in its loop can raise.
\<close>

function decimal :: "nat \<Rightarrow> jsstring" where
  "decimal n = (if n < 10 then [0x30 + n] else decimal (n div 10) @ [0x30 + n mod 10])"
  by pat_completeness auto
termination
  by (relation "measure id") auto

definition earlier_commentId :: "jsstring \<Rightarrow> jsstring \<Rightarrow> nat \<Rightarrow> jsstring" where
  "earlier_commentId usr msg now = usr @ js ''_'' @ msg @ js ''_'' @ decimal now"

text \<open>
  The callback of \<open>lines.forEach\<close>; \<open>now\<close> and \<open>stamp\<close> are the two readings of
  \<open>Date.now()\<close>, for the id and for the timestamp.
\<close>

definition earlier_processLine :: "nat \<Rightarrow> nat \<Rightarrow> app \<Rightarrow> jsstring \<Rightarrow> app" where
  "earlier_processLine now stamp st line =
     (if includes_str line (js ''message:'') \<or> includes_str line (js ''chat:'') then
        (case two_groups (rx_search word_colon_re line) of
           Some (usr, msg) \<Rightarrow>
             (let cid = IdStr (earlier_commentId usr msg now)
              in if cid \<in> processedComments st then st
                 else st\<lparr>commentQueue := commentQueue st @
                        [\<lparr>id_comment = cid, user = JStr usr, message = JStr (trim msg),
                          timestamp = stamp\<rparr>]\<rparr>)
         | None \<Rightarrow> st)
      else st)"

definition earlier_parseAndQueueComments :: "nat \<Rightarrow> nat \<Rightarrow> app \<Rightarrow> jsstring \<Rightarrow> app" where
  "earlier_parseAndQueueComments now stamp st mcpOutput =
     foldl (earlier_processLine now stamp) st (split_nl mcpOutput)"



section \<open>Intake and parser: proofs\<close>

lemma js_eq_iff: "js a = js b \<longleftrightarrow> a = b"
  by (simp add: js_def inj_map_eq_map inj_of_char)

lemma commentId_text:
  "commentId H (JStr u) (JStr m) p =
     Inr (if truthy_id p then p else IdStr (u @ js ''_'' @ take 8 (md5_hex H (u @ js '':'' @ m))))"
  by (simp add: commentId_def)

lemma queueComment_text_returns:
  "\<exists>st'. queueComment H now st (JStr u) (JStr m) p = Inr st'"
  by (simp add: queueComment_def commentId_text)

lemma regex_branch_returns: "\<exists>st'. regex_branch H now st line = Inr st'"
  unfolding regex_branch_def
  using queueComment_text_returns
  by (auto split: option.splits prod.splits)

lemma processLine_returns: "\<exists>st'. processLine H now st line = Inr st'"
  unfolding processLine_def
  using regex_branch_returns
  by (auto split: sum.splits)

lemma forEach_line_returns: "\<exists>st'. forEach_line H now st ls = Inr st'"
proof (induction ls arbitrary: st)
  case Nil
  show ?case by simp
next
  case (Cons l ls)
  obtain s1 where s1: "processLine H now st l = Inr s1"
    using processLine_returns by blast
  from Cons.IH [of s1] show ?case by (simp add: s1)
qed

lemma forEach_line_append:
  "forEach_line H now st (xs @ ys) =
     (case forEach_line H now st xs of
        Inl x \<Rightarrow> Inl x
      | Inr st' \<Rightarrow> forEach_line H now st' ys)"
  by (induction xs arbitrary: st) (auto split: sum.splits)

lemma split_nl_nonempty: "split_nl s \<noteq> []"
  by (induction s) (auto split: list.splits)

lemma split_nl_append: "split_nl (a @ 0x0A # b) = split_nl a @ split_nl b"
proof (induction a)
  case Nil
  show ?case by simp
next
  case (Cons c a)
  obtain l ls where l: "split_nl a = l # ls"
    using split_nl_nonempty [of a] by (cases "split_nl a") auto
  show ?case using Cons.IH by (simp add: l)
qed

lemma split_nl_single: "0x0A \<notin> set l \<Longrightarrow> split_nl l = [l]"
  by (induction l) (auto split: list.splits)


lemma parse_append:
  "parseAndQueueComments H now st (a @ 0x0A # b) =
     parseAndQueueComments H now (parseAndQueueComments H now st a) b"
proof -
  obtain s1 where s1: "forEach_line H now st (split_nl a) = Inr s1"
    using forEach_line_returns by blast
  show ?thesis
    by (simp add: parseAndQueueComments_def split_nl_append forEach_line_append s1)
qed

lemma malformed_line_skipped:
  assumes "JSON_parse H l = None"
    and "rx_search new_message_re l = None" and "rx_search word_colon_re l = None"
  shows "processLine H now st l = Inr st"
  using assms by (simp add: processLine_def json_branch_def regex_branch_def)

lemmas char_classes = js_def starts_with_def not_colon_def is_white_space_def is_dot_char_def
  is_line_terminator_def is_word_char_def

lemma alice_match: "rx_search new_message_re (js ''New message from alice: gm wagmi'') = Some [js ''alice'', js ''gm wagmi'']"
  by (simp add: new_message_re_def char_classes)

lemma alice_line:
  assumes "JSON_parse H (js ''New message from alice: gm wagmi'') = None"
    and "IdStr (js ''alice_'' @ take 8 (md5_hex H (js ''alice:gm wagmi''))) \<notin> processedComments st"
  shows "parseAndQueueComments H now st (js ''New message from alice: gm wagmi'') =
     st\<lparr>commentQueue := commentQueue st @
        [\<lparr>id_comment = IdStr (js ''alice_'' @ take 8 (md5_hex H (js ''alice:gm wagmi''))),
          user = JStr (js ''alice''), message = JStr (js ''gm wagmi''), timestamp = now\<rparr>]\<rparr>"
proof -
  have sp: "split_nl (js ''New message from alice: gm wagmi'') = [js ''New message from alice: gm wagmi'']"
    by (rule split_nl_single) (simp add: js_def)
  have tr: "trim (js ''New message from alice: gm wagmi'') \<noteq> []"
    by (simp add: trim_def char_classes)
  have t1: "trim (js ''alice'') = js ''alice''" by (simp add: trim_def char_classes)
  have t2: "trim (js ''gm wagmi'') = js ''gm wagmi''" by (simp add: trim_def char_classes)
  have cat1: "js ''alice'' @ js '':'' @ js ''gm wagmi'' = js ''alice:gm wagmi''" by (simp add: js_def)
  have cat2: "js ''alice'' @ js ''_'' @ x = js ''alice_'' @ x" for x by (simp add: js_def)
  show ?thesis
    using assms
    by (simp add: parseAndQueueComments_def sp processLine_def tr json_branch_def regex_branch_def
        alice_match t1 t2 queueComment_def commentId_text cat1 cat2)
qed

lemma gm_crypto: "containsCrypto (js ''gm wagmi'')"
  by (simp add: containsCrypto_def cryptoTerms_def toLowerCase_def lower_unit_def char_classes)

lemma alice_selectResponse: "selectResponse (js ''alice'') (js ''gm wagmi'') d = cryptoResponses (js ''alice'') ! (d mod 5)"
  by (simp add: selectResponse_def gm_crypto cryptoResponses_def)


lemma queue_append_neq: "st\<lparr>commentQueue := commentQueue st @ [c]\<rparr> \<noteq> st"
proof
  assume "st\<lparr>commentQueue := commentQueue st @ [c]\<rparr> = st"
  then have "commentQueue (st\<lparr>commentQueue := commentQueue st @ [c]\<rparr>) = commentQueue st"
    by simp
  then show False by simp
qed

text \<open>
  The intake of the later copy: two comments made by \<open>queueComment\<close> from the same user
  and message, at any two times and in any two states, with the same provided id or with none (a falsy one), carry
  the same id: the provided id when there is one, else the user, an underscore and the first
  eight digits of the digest of \<open>user:message\<close>. The clock reading enters the timestamp
  only.
\<close>

theorem queueComment_id_content_based:
  assumes "p1 = p2 \<or> (\<not> truthy_id p1 \<and> \<not> truthy_id p2)"
    and "queueComment H t1 s1 usr msg p1 = Inr s1'"
    and "queueComment H t2 s2 usr msg p2 = Inr s2'"
    and "commentQueue s1' = commentQueue s1 @ [e1]"
    and "commentQueue s2' = commentQueue s2 @ [e2]"
  shows "id_comment e1 = id_comment e2 \<and>
         (\<exists>us ms. to_str usr = Inr us \<and> to_str msg = Inr ms \<and>
            id_comment e1 = (if truthy_id p1 then p1
                             else IdStr (us @ js ''_'' @ take 8 (md5_hex H (us @ js '':'' @ ms)))))"
proof -
  obtain us where us: "to_str usr = Inr us"
    using assms(2) by (cases "to_str usr") (simp_all add: queueComment_def commentId_def)
  obtain ms where ms: "to_str msg = Inr ms"
    using assms(2) us by (cases "to_str msg") (simp_all add: queueComment_def commentId_def)
  define cid where "cid p = (if truthy_id p then p
      else IdStr (us @ js ''_'' @ take 8 (md5_hex H (us @ js '':'' @ ms))))" for p
  have c: "commentId H usr msg p = Inr (cid p)" for p
    by (simp add: commentId_def us ms cid_def)
  have e1: "id_comment e1 = cid p1"
    using assms(2,4) by (auto simp: queueComment_def c split: if_splits)
  have e2: "id_comment e2 = cid p2"
    using assms(3,5) by (auto simp: queueComment_def c split: if_splits)
  have "cid p1 = cid p2" using assms(1) by (auto simp: cid_def)
  then show ?thesis using e1 e2 us ms by (simp add: cid_def)
qed

theorem queueComment_id_content_based_witness:
  "queueComment demo_host 1000 constructor (JStr (js ''alice'')) (JStr (js ''gm wagmi'')) IdNull =
     Inr (constructor\<lparr>commentQueue :=
       [\<lparr>id_comment = IdStr (js ''alice_6e819aef''), user = JStr (js ''alice''),
         message = JStr (js ''gm wagmi''), timestamp = 1000\<rparr>]\<rparr>)
   \<and> queueComment demo_host 2000 (constructor\<lparr>isProcessing := True\<rparr>) (JStr (js ''alice''))
       (JStr (js ''gm wagmi'')) (IdStr []) =
     Inr (constructor\<lparr>isProcessing := True, commentQueue :=
       [\<lparr>id_comment = IdStr (js ''alice_6e819aef''), user = JStr (js ''alice''),
         message = JStr (js ''gm wagmi''), timestamp = 2000\<rparr>]\<rparr>)
   \<and> id_comment \<lparr>id_comment = IdStr (js ''alice_6e819aef''), user = JStr (js ''alice''),
         message = JStr (js ''gm wagmi''), timestamp = 1000\<rparr>
     = id_comment \<lparr>id_comment = IdStr (js ''alice_6e819aef''), user = JStr (js ''alice''),
         message = JStr (js ''gm wagmi''), timestamp = 2000\<rparr>"
proof -
  let ?e1 = "\<lparr>id_comment = IdStr (js ''alice_6e819aef''), user = JStr (js ''alice''),
         message = JStr (js ''gm wagmi''), timestamp = 1000\<rparr>"
  let ?e2 = "\<lparr>id_comment = IdStr (js ''alice_6e819aef''), user = JStr (js ''alice''),
         message = JStr (js ''gm wagmi''), timestamp = 2000\<rparr>"
  have h1: "IdNull = IdStr [] \<or> (\<not> truthy_id IdNull \<and> \<not> truthy_id (IdStr []))" by simp
  have h2: "queueComment demo_host 1000 constructor (JStr (js ''alice'')) (JStr (js ''gm wagmi'')) IdNull =
     Inr (constructor\<lparr>commentQueue := [?e1]\<rparr>)"
    by (simp add: queueComment_def commentId_text demo_host_def constructor_def js_def)
  have h3: "queueComment demo_host 2000 (constructor\<lparr>isProcessing := True\<rparr>) (JStr (js ''alice''))
       (JStr (js ''gm wagmi'')) (IdStr []) =
     Inr (constructor\<lparr>isProcessing := True, commentQueue := [?e2]\<rparr>)"
    by (simp add: queueComment_def commentId_text demo_host_def constructor_def js_def)
  have h4: "commentQueue (constructor\<lparr>commentQueue := [?e1]\<rparr>) = commentQueue constructor @ [?e1]"
    by (simp add: constructor_def)
  have h5: "commentQueue (constructor\<lparr>isProcessing := True, commentQueue := [?e2]\<rparr>)
      = commentQueue (constructor\<lparr>isProcessing := True\<rparr>) @ [?e2]"
    by (simp add: constructor_def)
  from queueComment_id_content_based [OF h1 h2 h3 h4 h5] h2 h3 show ?thesis by blast
qed

text \<open>
  An object with an own property \<open>toString\<close> cannot be converted: for such a user
  \<open>queueComment\<close> raises, inside the \<open>try\<close> block of the parser.
\<close>

lemma queueComment_unconvertible_raises:
  "queueComment H now st (JObj [(js ''toString'', JNull)]) msg p = Inl TypeError"
  by (simp add: queueComment_def commentId_def)

lemma parse_single_line:
  "0x0A \<notin> set l \<Longrightarrow> processLine H now st l = Inr st' \<Longrightarrow> parseAndQueueComments H now st l = st'"
  by (simp add: parseAndQueueComments_def split_nl_single)

text \<open>
  C7. The loop over the lines of a chunk never stops early, whatever \<open>JSON.parse\<close> does:
  a chunk is processed as its part before a line feed and then its part after it. A line that
  \<open>JSON.parse\<close> rejects and neither pattern matches leaves the state as it is, and the
  lines after it are processed as if it were not there.
\<close>

theorem parse_failure_isolated:
  "(\<exists>st'. forEach_line H now st ls = Inr st')
   \<and> parseAndQueueComments H now st (a @ 0x0A # b) =
       parseAndQueueComments H now (parseAndQueueComments H now st a) b
   \<and> (JSON_parse H l = None \<and> rx_search new_message_re l = None
        \<and> rx_search word_colon_re l = None \<and> 0x0A \<notin> set l \<longrightarrow>
        parseAndQueueComments H now st l = st
        \<and> parseAndQueueComments H now st (a @ 0x0A # l @ 0x0A # b) =
            parseAndQueueComments H now (parseAndQueueComments H now st a) b)"
proof (intro conjI impI)
  show "\<exists>st'. forEach_line H now st ls = Inr st'" by (rule forEach_line_returns)
  show "parseAndQueueComments H now st (a @ 0x0A # b) =
       parseAndQueueComments H now (parseAndQueueComments H now st a) b"
    by (rule parse_append)
next
  assume bad: "JSON_parse H l = None \<and> rx_search new_message_re l = None
        \<and> rx_search word_colon_re l = None \<and> 0x0A \<notin> set l"
  have skip: "parseAndQueueComments H now s l = s" for s
    using bad by (simp add: parse_single_line malformed_line_skipped)
  show "parseAndQueueComments H now st l = st" by (rule skip)
  have "parseAndQueueComments H now st (a @ 0x0A # l @ 0x0A # b) =
      parseAndQueueComments H now (parseAndQueueComments H now st a) (l @ 0x0A # b)"
    by (rule parse_append)
  also have "\<dots> = parseAndQueueComments H now
      (parseAndQueueComments H now (parseAndQueueComments H now st a) l) b"
    by (rule parse_append)
  finally show "parseAndQueueComments H now st (a @ 0x0A # l @ 0x0A # b) =
            parseAndQueueComments H now (parseAndQueueComments H now st a) b"
    by (simp add: skip)
qed

lemma not_json_no_match:
  "rx_search new_message_re (js ''{not json'') = None"
  "rx_search word_colon_re (js ''{not json'') = None"
  by (simp_all add: new_message_re_def word_colon_re_def char_classes)

theorem parse_failure_isolated_witness:
  "JSON_parse demo_host (js ''{not json'') = None
   \<and> rx_search new_message_re (js ''{not json'') = None
   \<and> rx_search word_colon_re (js ''{not json'') = None
   \<and> 0x0A \<notin> set (js ''{not json'')
   \<and> parseAndQueueComments demo_host 7 constructor
        (js ''New message from alice: gm wagmi'' @ 0x0A # js ''{not json'' @ 0x0A # js ''bob: hi'') =
      parseAndQueueComments demo_host 7
        (parseAndQueueComments demo_host 7 constructor (js ''New message from alice: gm wagmi''))
        (js ''bob: hi'')"
proof -
  have h: "JSON_parse demo_host (js ''{not json'') = None
     \<and> rx_search new_message_re (js ''{not json'') = None
     \<and> rx_search word_colon_re (js ''{not json'') = None
     \<and> 0x0A \<notin> set (js ''{not json'')"
    by (simp add: not_json_no_match) (simp add: demo_host_def js_def)
  from parse_failure_isolated [of demo_host 7 constructor "[]" "js ''New message from alice: gm wagmi''"
      "js ''bob: hi''" "js ''{not json''"] h
  show ?thesis by blast
qed

text \<open>
  C8. The line \<open>New message from alice: gm wagmi\<close>, which \<open>JSON.parse\<close> rejects, adds
  exactly one comment to the queue, with user \<open>alice\<close> and message \<open>gm wagmi\<close>
  (unless its id is already processed); the message contains the term \<open>wagmi\<close> of the
  crypto term list, so the response is picked from the crypto pool.
\<close>

theorem alice_gm_wagmi_scenario:
  assumes "JSON_parse H (js ''New message from alice: gm wagmi'') = None"
    and "IdStr (js ''alice_'' @ take 8 (md5_hex H (js ''alice:gm wagmi''))) \<notin> processedComments st"
  shows "parseAndQueueComments H now st (js ''New message from alice: gm wagmi'') =
           st\<lparr>commentQueue := commentQueue st @
             [\<lparr>id_comment = IdStr (js ''alice_'' @ take 8 (md5_hex H (js ''alice:gm wagmi''))),
               user = JStr (js ''alice''), message = JStr (js ''gm wagmi''), timestamp = now\<rparr>]\<rparr>
         \<and> containsCrypto (js ''gm wagmi'')
         \<and> includes_str (toLowerCase (js ''gm wagmi'')) (toLowerCase (js ''wagmi''))
         \<and> js ''wagmi'' \<in> set cryptoTerms
         \<and> selectResponse (js ''alice'') (js ''gm wagmi'') d = cryptoResponses (js ''alice'') ! (d mod 5)
         \<and> selectResponse (js ''alice'') (js ''gm wagmi'') d \<in> set (cryptoResponses (js ''alice''))"
proof -
  have len: "length (cryptoResponses (js ''alice'')) = 5" by (simp add: cryptoResponses_def)
  have "cryptoResponses (js ''alice'') ! (d mod 5) \<in> set (cryptoResponses (js ''alice''))"
    by (rule nth_mem) (simp add: len)
  moreover have "includes_str (toLowerCase (js ''gm wagmi'')) (toLowerCase (js ''wagmi''))"
    by (simp add: toLowerCase_def lower_unit_def char_classes)
  moreover have "js ''wagmi'' \<in> set cryptoTerms" by (simp add: cryptoTerms_def)
  ultimately show ?thesis
    using alice_line [OF assms] gm_crypto alice_selectResponse by simp
qed

theorem alice_gm_wagmi_scenario_witness:
  "JSON_parse demo_host (js ''New message from alice: gm wagmi'') = None
   \<and> IdStr (js ''alice_'' @ take 8 (md5_hex demo_host (js ''alice:gm wagmi''))) \<notin> processedComments constructor
   \<and> commentQueue (parseAndQueueComments demo_host 1000 constructor (js ''New message from alice: gm wagmi'')) =
       [\<lparr>id_comment = IdStr (js ''alice_6e819aef''),
         user = JStr (js ''alice''), message = JStr (js ''gm wagmi''), timestamp = 1000\<rparr>]
   \<and> selectResponse (js ''alice'') (js ''gm wagmi'') 7 =
       js ''alice, when DeFi meets AI - this is what peak innovation looks like! '' @ [0xD83D, 0xDD25]"
proof -
  have h1: "JSON_parse demo_host (js ''New message from alice: gm wagmi'') = None"
    by (simp add: demo_host_def)
  have h2: "IdStr (js ''alice_'' @ take 8 (md5_hex demo_host (js ''alice:gm wagmi''))) \<notin> processedComments constructor"
    by (simp add: constructor_def)
  have d: "js ''alice_'' @ take 8 (md5_hex demo_host (js ''alice:gm wagmi'')) = js ''alice_6e819aef''"
    by (simp add: demo_host_def js_def)
  have q: "commentQueue constructor = []" by (simp add: constructor_def)
  have r: "cryptoResponses (js ''alice'') ! 2 =
      js ''alice, when DeFi meets AI - this is what peak innovation looks like! '' @ [0xD83D, 0xDD25]"
    by (simp add: cryptoResponses_def js_def)
  from alice_gm_wagmi_scenario [OF h1 h2, of 1000 7] h1 h2 show ?thesis
    by (simp add: d q r)
qed

text \<open>
  The structured format: a record that declares itself a message is queued under the id it
  provides. The line \<open>null\<close> decodes, reading its \<open>type\<close> raises, and the plain-text
  formats do not match it: nothing is queued.
\<close>

lemma demo_json_line_no_lf: "0x0A \<notin> set demo_json_line"
  by (simp add: demo_json_line_def quoted_def js_def)

lemma demo_json_line_not_blank: "trim demo_json_line \<noteq> []"
  by (simp add: demo_json_line_def quoted_def trim_def js_def is_white_space_def)

lemma demo_json_line_parsed:
  "JSON_parse json_host demo_json_line =
     Some (JObj [(js ''type'', JStr (js ''message'')), (js ''user'', JStr (js ''bob'')),
                 (js ''text'', JStr (js ''to the moon'')), (js ''id'', JStr (js ''m1''))])"
  by (simp add: json_host_def)

lemma demo_json_props:
  "map_of (rev [(js ''type'', JStr (js ''message'')), (js ''user'', JStr (js ''bob'')),
                (js ''text'', JStr (js ''to the moon'')), (js ''id'', JStr (js ''m1''))]) (js ''type'')
     = Some (JStr (js ''message''))"
  "map_of (rev [(js ''type'', JStr (js ''message'')), (js ''user'', JStr (js ''bob'')),
                (js ''text'', JStr (js ''to the moon'')), (js ''id'', JStr (js ''m1''))]) (js ''user'')
     = Some (JStr (js ''bob''))"
  "map_of (rev [(js ''type'', JStr (js ''message'')), (js ''user'', JStr (js ''bob'')),
                (js ''text'', JStr (js ''to the moon'')), (js ''id'', JStr (js ''m1''))]) (js ''text'')
     = Some (JStr (js ''to the moon''))"
  "map_of (rev [(js ''type'', JStr (js ''message'')), (js ''user'', JStr (js ''bob'')),
                (js ''text'', JStr (js ''to the moon'')), (js ''id'', JStr (js ''m1''))]) (js ''id'')
     = Some (JStr (js ''m1''))"
  by (simp_all add: js_eq_iff)

lemma demo_json_line_queued:
  "parseAndQueueComments json_host 5 constructor demo_json_line =
     constructor\<lparr>commentQueue :=
       [\<lparr>id_comment = IdStr (js ''m1''), user = JStr (js ''bob''),
         message = JStr (js ''to the moon''), timestamp = 5\<rparr>]\<rparr>"
proof -
  have ne: "js ''bob'' \<noteq> []" "js ''to the moon'' \<noteq> []" "js ''m1'' \<noteq> []"
    by (simp_all add: js_def)
  have q: "queueComment json_host 5 constructor (JStr (js ''bob'')) (JStr (js ''to the moon''))
      (IdStr (js ''m1'')) = Inr (constructor\<lparr>commentQueue :=
       [\<lparr>id_comment = IdStr (js ''m1''), user = JStr (js ''bob''),
         message = JStr (js ''to the moon''), timestamp = 5\<rparr>]\<rparr>)"
    by (simp add: queueComment_def commentId_text ne constructor_def)
  have pl: "processLine json_host 5 constructor demo_json_line =
     Inr (constructor\<lparr>commentQueue :=
       [\<lparr>id_comment = IdStr (js ''m1''), user = JStr (js ''bob''),
         message = JStr (js ''to the moon''), timestamp = 5\<rparr>]\<rparr>)"
    by (simp add: processLine_def demo_json_line_not_blank json_branch_def demo_json_line_parsed
        demo_json_props ne q del: map_of.simps rev.simps)
  show ?thesis by (rule parse_single_line [OF demo_json_line_no_lf pl])
qed

lemma null_line_not_queued: "parseAndQueueComments json_host 5 st (js ''null'') = st"
proof -
  have p: "JSON_parse json_host (js ''null'') = Some JNull"
    by (simp add: json_host_def demo_json_line_def quoted_def js_def)
  have n: "rx_search new_message_re (js ''null'') = None"
    "\<not> includes_str (js ''null'') (js '':'')"
    "\<not> includes_str (js ''null'') (js ''chat:'')"
    "\<not> includes_str (js ''null'') (js ''message:'')"
    "trim (js ''null'') \<noteq> []"
    by (simp_all add: new_message_re_def trim_def char_classes)
  have pl: "processLine json_host 5 st (js ''null'') = Inr st"
    by (simp add: processLine_def json_branch_def p regex_branch_def n)
  show ?thesis by (rule parse_single_line [OF _ pl]) (simp add: js_def)
qed

section \<open>The run invariant\<close>

lemma queueComment_frame:
  "queueComment H now st usr msg p = Inr st' \<Longrightarrow> erase_intake st' = erase_intake st"
  unfolding queueComment_def erase_intake_def
  by (auto split: sum.splits if_splits)

lemma json_branch_frame:
  "json_branch H now st line = Inr st' \<Longrightarrow> erase_intake st' = erase_intake st"
  unfolding json_branch_def
  by (auto split: option.splits sum.splits prod.splits if_splits dest!: queueComment_frame)
     (simp_all add: erase_intake_def)

lemma regex_branch_frame:
  "regex_branch H now st line = Inr st' \<Longrightarrow> erase_intake st' = erase_intake st"
  unfolding regex_branch_def
  by (auto split: option.splits prod.splits if_splits dest!: queueComment_frame)

lemma processLine_frame:
  "processLine H now st line = Inr st' \<Longrightarrow> erase_intake st' = erase_intake st"
  unfolding processLine_def
  by (auto split: sum.splits if_splits dest: json_branch_frame regex_branch_frame)

lemma forEach_line_frame:
  "forEach_line H now st ls = Inr st' \<Longrightarrow> erase_intake st' = erase_intake st"
  "forEach_line H now st ls = Inl (e, st') \<Longrightarrow> erase_intake st' = erase_intake st"
  by (induction ls arbitrary: st) (auto split: sum.splits dest: processLine_frame)

lemma parse_frame: "erase_intake (parseAndQueueComments H now st out) = erase_intake st"
  unfolding parseAndQueueComments_def
  by (auto split: sum.splits dest: forEach_line_frame)

lemma erase_intake_fields:
  assumes "erase_intake a = erase_intake b"
  shows "isProcessing a = isProcessing b" "processedComments a = processedComments b"
    "currentlySpeaking a = currentlySpeaking b" "ttsDisabled a = ttsDisabled b"
    "inflight a = inflight b" "promises a = promises b" "resolved a = resolved b"
    "ttsTimers a = ttsTimers b" "sayPending a = sayPending b" "effects a = effects b"
    "username a = username b" "tokenAddress a = tokenAddress b" "mcpProcess a = mcpProcess b"
    "textGenerator a = textGenerator b" "spawned a = spawned b" "intervals a = intervals b"
    "restartTimers a = restartTimers b"
  using assms unfolding erase_intake_def
  by (cases a; cases b; simp)+

lemma task_list_cases [case_names Idle Gen Speak Many]:
  obtains "ts = []" | c d where "ts = [AwaitGenerate c d]" | n where "ts = [AwaitSpeak n]"
  | t u us where "ts = t # u # us"
proof (cases ts)
  case Nil
  then show ?thesis using that by blast
next
  case (Cons t ts')
  show ?thesis
  proof (cases ts')
    case Nil
    then show ?thesis using Cons that by (cases t) auto
  next
    case (Cons u us)
    then show ?thesis using \<open>ts = t # ts'\<close> that by blast
  qed
qed

lemma flight_ok_cong:
  assumes "isProcessing a = isProcessing b" "currentlySpeaking a = currentlySpeaking b"
    "processedComments a = processedComments b" "promises a = promises b"
    "resolved a = resolved b" "ttsTimers a = ttsTimers b" "sayPending a = sayPending b"
  shows "flight_ok a ts = flight_ok b ts"
  using assms by (cases ts rule: task_list_cases) simp_all

lemma run_inv_cong:
  assumes "isProcessing a = isProcessing b" "currentlySpeaking a = currentlySpeaking b"
    "processedComments a = processedComments b" "promises a = promises b"
    "resolved a = resolved b" "ttsTimers a = ttsTimers b" "sayPending a = sayPending b"
    "inflight a = inflight b"
  shows "run_inv a = run_inv b"
  using assms flight_ok_cong [OF assms(1-7)] by (simp add: run_inv_def)

lemma run_inv_parse: "run_inv st \<Longrightarrow> run_inv (parseAndQueueComments H now st out)"
  using erase_intake_fields [OF parse_frame [of H now st out]]
  by (simp add: run_inv_cong [of "parseAndQueueComments H now st out" st])

lemma startPumpFunChat_frame:
  "startPumpFunChat st = Inr st' \<Longrightarrow> erase_control st' = erase_control st"
  "startPumpFunChat st = Inl (e, st') \<Longrightarrow> erase_control st' = erase_control st"
  by (auto simp: startPumpFunChat_def startQueueProcessor_def Let_def erase_control_def
      split: option.splits if_splits)

lemma post_start_frame: "erase_control (post_start body st) = erase_control st"
proof -
  have "erase_control st' = erase_control (st\<lparr>username := u, tokenAddress := t\<rparr>)"
    if "startPumpFunChat (st\<lparr>username := u, tokenAddress := t\<rparr>) = Inr st'
        \<or> startPumpFunChat (st\<lparr>username := u, tokenAddress := t\<rparr>) = Inl (e, st')"
    for st' u t e
    using that startPumpFunChat_frame by blast
  then show ?thesis
    by (auto simp: post_start_def Let_def erase_control_def split: option.splits sum.splits)
qed

lemma restart_timeout_frame: "erase_control (restart_timeout st) = erase_control st"
  by (auto simp: restart_timeout_def split: sum.splits dest: startPumpFunChat_frame)

lemma erase_control_fields:
  assumes "erase_control a = erase_control b"
  shows "commentQueue a = commentQueue b" "processedComments a = processedComments b"
    "isProcessing a = isProcessing b" "textGenerator a = textGenerator b"
    "currentlySpeaking a = currentlySpeaking b" "ttsDisabled a = ttsDisabled b"
    "heapNext a = heapNext b" "restartTimers a = restartTimers b" "inflight a = inflight b"
    "promises a = promises b" "resolved a = resolved b" "ttsTimers a = ttsTimers b"
    "sayPending a = sayPending b"
  using assms unfolding erase_control_def
  by (cases a; cases b; simp)+

lemma run_inv_post_start: "run_inv (post_start body st) = run_inv st"
  by (rule run_inv_cong) (simp_all add: erase_control_fields [OF post_start_frame])

lemma run_inv_restart_timeout: "run_inv (restart_timeout st) = run_inv st"
  by (rule run_inv_cong) (simp_all add: erase_control_fields [OF restart_timeout_frame])

lemma run_inv_tick: "run_inv st \<Longrightarrow> run_inv (interval_tick d st)"
  by (cases "inflight st" rule: task_list_cases)
     (auto simp: run_inv_def interval_tick_def processNextComment_def Let_def split: list.splits)

lemma run_inv_tts_timeout: "run_inv st \<Longrightarrow> run_inv (tts_timeout n st)"
  by (cases "inflight st" rule: task_list_cases)
     (auto simp: run_inv_def tts_timeout_def split: if_splits)

lemma run_inv_say_callback: "run_inv st \<Longrightarrow> run_inv (say_callback n err st)"
  by (cases "inflight st" rule: task_list_cases)
     (auto simp: run_inv_def say_callback_def split: if_splits)

lemma run_inv_speak_settles: "run_inv st \<Longrightarrow> run_inv (handle H (SpeakSettles i) st)"
  by (cases "inflight st" rule: task_list_cases)
     (auto simp: run_inv_def finally_block_def split: if_splits task.splits)

lemma run_inv_generate_settles: "run_inv st \<Longrightarrow> run_inv (handle H (GenerateSettles i b s) st)"
  by (cases "inflight st" rule: task_list_cases)
     (auto simp: run_inv_def finally_block_def after_generate_def speakResponse_def Let_def
           split: if_splits task.splits sum.splits)

lemma run_inv_frame:
  "run_inv (st\<lparr>textGenerator := tg\<rparr>) = run_inv st"
  "run_inv (st\<lparr>effects := es\<rparr>) = run_inv st"
  "run_inv (st\<lparr>restartTimers := k\<rparr>) = run_inv st"
  by (rule run_inv_cong; simp)+

lemma run_inv_handle: "run_inv st \<Longrightarrow> run_inv (handle H ev st)"
proof (cases ev)
  case (GenerateSettles i b s)
  assume "run_inv st"
  then show ?thesis unfolding GenerateSettles by (rule run_inv_generate_settles)
next
  case (SpeakSettles i)
  assume "run_inv st"
  then show ?thesis unfolding SpeakSettles by (rule run_inv_speak_settles)
qed (simp_all add: run_inv_frame run_inv_post_start run_inv_parse run_inv_tick
      run_inv_tts_timeout run_inv_say_callback run_inv_restart_timeout)

lemma run_inv_constructor: "run_inv constructor"
  by (simp add: run_inv_def constructor_def)

lemma run_inv_run: "run_inv st \<Longrightarrow> run_inv (run H evs st)"
  unfolding run_def by (induction evs arbitrary: st) (simp_all add: run_inv_handle)

lemma run_Nil: "run H [] st = st"
  by (simp add: run_def)

lemma run_Cons: "run H (ev # evs) st = run H evs (handle H ev st)"
  by (simp add: run_def)

lemma run_reachable_inv: "run_inv (run H evs constructor)"
  by (rule run_inv_run) (rule run_inv_constructor)

lemma single_flight:
  "run_inv st \<Longrightarrow> length (inflight st) \<le> 1 \<and> (isProcessing st \<longleftrightarrow> inflight st \<noteq> [])"
  by (cases "inflight st" rule: task_list_cases) (auto simp: run_inv_def)

section \<open>Comments that convert to strings\<close>


lemma converts_text: "converts (JStr s)"
  by (simp add: converts_def)

lemma comments_convert_queueComment:
  "queueComment H now st usr msg p = Inr st' \<Longrightarrow> comments_convert st \<Longrightarrow> comments_convert st'"
  unfolding queueComment_def commentId_def comments_convert_def comment_converts_def converts_def
  by (auto split: sum.splits if_splits)

lemma comments_convert_heapNext: "comments_convert (st\<lparr>heapNext := h\<rparr>) = comments_convert st"
  by (simp add: comments_convert_def)

lemma comments_convert_json_branch:
  "json_branch H now st line = Inr st' \<Longrightarrow> comments_convert st \<Longrightarrow> comments_convert st'"
  unfolding json_branch_def
  by (auto split: option.splits sum.splits prod.splits if_splits
      dest!: comments_convert_queueComment simp: comments_convert_heapNext)

lemma comments_convert_regex_branch:
  "regex_branch H now st line = Inr st' \<Longrightarrow> comments_convert st \<Longrightarrow> comments_convert st'"
  unfolding regex_branch_def
  by (auto split: option.splits prod.splits if_splits dest: comments_convert_queueComment)

lemma comments_convert_processLine:
  "processLine H now st line = Inr st' \<Longrightarrow> comments_convert st \<Longrightarrow> comments_convert st'"
  unfolding processLine_def
  by (auto split: sum.splits if_splits
      dest: comments_convert_json_branch comments_convert_regex_branch)

lemma comments_convert_forEach_line:
  "forEach_line H now st ls = Inr st' \<Longrightarrow> comments_convert st \<Longrightarrow> comments_convert st'"
  by (induction ls arbitrary: st) (auto split: sum.splits dest: comments_convert_processLine)

lemma comments_convert_parse:
  "comments_convert st \<Longrightarrow> comments_convert (parseAndQueueComments H now st out)"
proof -
  assume u: "comments_convert st"
  obtain s1 where s1: "forEach_line H now st (split_nl out) = Inr s1"
    using forEach_line_returns by blast
  have "comments_convert s1" using s1 u by (rule comments_convert_forEach_line)
  then show ?thesis by (simp add: parseAndQueueComments_def s1)
qed

lemma comments_convert_cong:
  assumes "commentQueue a = commentQueue b" "inflight a = inflight b"
  shows "comments_convert a = comments_convert b"
  using assms by (simp add: comments_convert_def)

lemma comments_convert_finally:
  "comments_convert st \<Longrightarrow> comments_convert (finally_block i st)"
  by (auto simp: comments_convert_def finally_block_def dest: in_set_takeD in_set_dropD)

lemma comments_convert_after_generate:
  "comments_convert st \<Longrightarrow> comments_convert (after_generate i r s st)"
proof (cases r)
  case (Inl e)
  assume "comments_convert st"
  then show ?thesis by (simp add: after_generate_def Inl comments_convert_finally)
next
  case (Inr response)
  assume u: "comments_convert st"
  have "set ((inflight st)[i := AwaitSpeak (promises st)])
      \<subseteq> insert (AwaitSpeak (promises st)) (set (inflight st))"
    by (rule set_update_subset_insert)
  then show ?thesis
    using u by (auto simp: after_generate_def Inr comments_convert_def speakResponse_def Let_def)
qed

lemma comments_convert_tick:
  "comments_convert st \<Longrightarrow> comments_convert (interval_tick d st)"
  by (auto simp: comments_convert_def interval_tick_def processNextComment_def Let_def
      split: list.splits)

lemma comments_convert_handle: "comments_convert st \<Longrightarrow> comments_convert (handle H ev st)"
proof (cases ev)
  case (PostStart body)
  assume "comments_convert st"
  then show ?thesis
    unfolding PostStart
    using comments_convert_cong [OF erase_control_fields(1,9) [OF post_start_frame [of body st]]]
    by simp
next
  case (ProcessData chunk now)
  assume "comments_convert st"
  then show ?thesis unfolding ProcessData by (simp add: comments_convert_parse)
next
  case RestartTimeout
  assume u: "comments_convert st"
  have "comments_convert (st\<lparr>restartTimers := restartTimers st - 1\<rparr>)"
    using u by (simp add: comments_convert_def)
  then show ?thesis
    unfolding RestartTimeout
    using u comments_convert_cong [OF erase_control_fields(1,9)
        [OF restart_timeout_frame [of "st\<lparr>restartTimers := restartTimers st - 1\<rparr>"]]]
    by simp
next
  case (IntervalTick d)
  assume "comments_convert st"
  then show ?thesis unfolding IntervalTick by (simp add: comments_convert_tick)
next
  case (GenerateSettles i b s)
  assume "comments_convert st"
  then show ?thesis
    unfolding GenerateSettles by (simp add: comments_convert_after_generate split: task.splits)
next
  case (SpeakSettles i)
  assume "comments_convert st"
  then show ?thesis
    unfolding SpeakSettles by (simp add: comments_convert_finally split: task.splits)
qed (auto simp: comments_convert_def tts_timeout_def say_callback_def)

lemma comments_convert_run: "comments_convert st \<Longrightarrow> comments_convert (run H evs st)"
  by (induction evs arbitrary: st) (simp_all add: run_Nil run_Cons comments_convert_handle)

lemma comments_convert_constructor: "comments_convert constructor"
  by (simp add: comments_convert_def constructor_def)

lemma comments_convert_reachable: "comments_convert (run H evs constructor)"
  by (rule comments_convert_run) (rule comments_convert_constructor)



section \<open>The example run, evaluated\<close>

lemma demo_started_state:
  "post_start demo_body constructor =
     \<lparr>commentQueue = [], processedComments = {}, isProcessing = False,
       username = JStr (js ''AI Avatar''), tokenAddress = JStr (js ''So1anaT0ken''),
       mcpProcess = Some 0, textGenerator = False, currentlySpeaking = False,
       ttsDisabled = False, heapNext = 0, spawned = 1, intervals = 1, restartTimers = 0,
       inflight = [], promises = 0, resolved = {}, ttsTimers = Map.empty, sayPending = {},
       effects = [Spawn 0 (JStr (js ''So1anaT0ken'')), SetInterval, Respond 200]\<rparr>"
proof -
  have tok: "map_of (rev demo_body) (js ''tokenAddress'') = Some (JStr (js ''So1anaT0ken''))"
       "map_of (rev demo_body) (js ''username'') = None"
    by (simp_all add: demo_body_def js_def)
  have nz: "js ''So1anaT0ken'' \<noteq> []" "0 \<notin> set (js ''So1anaT0ken'')"
    by (simp_all add: js_def)
  show ?thesis
    by (simp add: post_start_def tok nz startPumpFunChat_def startQueueProcessor_def Let_def
        constructor_def converts_text)
qed

lemma demo_intake_state:
  "run demo_host demo_intake constructor =
     \<lparr>
       commentQueue = [\<lparr>id_comment = IdStr (js ''alice_6e819aef''), user = JStr (js ''alice''), message = JStr (js ''gm wagmi''), timestamp = 1000\<rparr>],
       processedComments = {}, isProcessing = False, username = JStr (js ''AI Avatar''),
       tokenAddress = JStr (js ''So1anaT0ken''), mcpProcess = Some 0, textGenerator = False,
       currentlySpeaking = False, ttsDisabled = False, heapNext = 0, spawned = 1,
       intervals = 1, restartTimers = 0, inflight = [], promises = 0, resolved = {},
       ttsTimers = Map.empty, sayPending = {},
       effects = [Spawn 0 (JStr (js ''So1anaT0ken'')), SetInterval, Respond 200]\<rparr>"
proof -
  have h1: "JSON_parse demo_host (js ''New message from alice: gm wagmi'') = None"
    by (simp add: demo_host_def)
  have d: "js ''alice_'' @ take 8 (md5_hex demo_host (js ''alice:gm wagmi'')) = js ''alice_6e819aef''"
    by (simp add: demo_host_def js_def)
  have h2: "IdStr (js ''alice_'' @ take 8 (md5_hex demo_host (js ''alice:gm wagmi'')))
      \<notin> processedComments (post_start demo_body constructor)"
    by (simp add: demo_started_state)
  have sp: "spawned (post_start demo_body constructor) \<noteq> 0"
    by (simp add: demo_started_state)
  show ?thesis
    by (simp add: run_def demo_intake_def sp alice_line [OF h1 h2] d) (simp add: demo_started_state)
qed

lemma demo_generating_state:
  "run demo_host demo_generating constructor =
     \<lparr>commentQueue = [], processedComments = {IdStr (js ''alice_6e819aef'')},
       isProcessing = True, username = JStr (js ''AI Avatar''),
       tokenAddress = JStr (js ''So1anaT0ken''), mcpProcess = Some 0, textGenerator = False,
       currentlySpeaking = False, ttsDisabled = False, heapNext = 0, spawned = 1,
       intervals = 1, restartTimers = 0,
       inflight = [AwaitGenerate \<lparr>id_comment = IdStr (js ''alice_6e819aef''),
          user = JStr (js ''alice''), message = JStr (js ''gm wagmi''), timestamp = 1000\<rparr> 7],
       promises = 0, resolved = {}, ttsTimers = Map.empty, sayPending = {},
       effects = [Spawn 0 (JStr (js ''So1anaT0ken'')), SetInterval, Respond 200]\<rparr>"
proof -
  have r: "run demo_host demo_generating constructor =
      handle demo_host (IntervalTick 7) (run demo_host demo_intake constructor)"
    by (simp add: run_def demo_generating_def del: handle.simps)
  show ?thesis
    unfolding r demo_intake_state
    by (simp add: interval_tick_def processNextComment_def converts_text)
qed

lemma demo_speaking_state:
  "run demo_host demo_speaking constructor =
     \<lparr>commentQueue = [], processedComments = {IdStr (js ''alice_6e819aef'')},
       isProcessing = True, username = JStr (js ''AI Avatar''),
       tokenAddress = JStr (js ''So1anaT0ken''), mcpProcess = Some 0, textGenerator = False,
       currentlySpeaking = True, ttsDisabled = False, heapNext = 0, spawned = 1,
       intervals = 1, restartTimers = 0, inflight = [AwaitSpeak 0], promises = 1,
       resolved = {}, ttsTimers = [0 \<mapsto> 5000], sayPending = {0},
       effects = [Spawn 0 (JStr (js ''So1anaT0ken'')), SetInterval, Respond 200, SaySpeak (cryptoResponses (js ''alice'') ! 2), Animate (cryptoResponses (js ''alice'') ! 2)]\<rparr>"
proof -
  have r: "run demo_host demo_speaking constructor =
      handle demo_host (GenerateSettles 0 BackendFails False)
        (handle demo_host (IntervalTick 7) (run demo_host demo_intake constructor))"
    by (simp add: run_def demo_speaking_def del: handle.simps)
  have g: "generateResponse False \<lparr>id_comment = IdStr (js ''alice_6e819aef''), user = JStr (js ''alice''),
           message = JStr (js ''gm wagmi''), timestamp = 1000\<rparr> 7 BackendFails
      = Inr (cryptoResponses (js ''alice'') ! 2)"
    by (simp add: generateResponse_def generate_try_def alice_selectResponse)
  show ?thesis
    unfolding r demo_intake_state
    by (simp add: interval_tick_def processNextComment_def converts_text g after_generate_def
        speakResponse_def Let_def)
qed

lemma demo_timed_out_run:
  "run demo_host demo_timed_out constructor =
     handle demo_host (TtsTimeout 0) (run demo_host demo_speaking constructor)"
  by (simp add: run_def demo_timed_out_def del: handle.simps)

lemma demo_timed_out_state:
  "run demo_host demo_timed_out constructor =
     \<lparr>commentQueue = [], processedComments = {IdStr (js ''alice_6e819aef'')},
       isProcessing = True, username = JStr (js ''AI Avatar''),
       tokenAddress = JStr (js ''So1anaT0ken''), mcpProcess = Some 0, textGenerator = False,
       currentlySpeaking = False, ttsDisabled = True, heapNext = 0, spawned = 1,
       intervals = 1, restartTimers = 0, inflight = [AwaitSpeak 0], promises = 1,
       resolved = {0}, ttsTimers = Map.empty, sayPending = {0},
       effects = [Spawn 0 (JStr (js ''So1anaT0ken'')), SetInterval, Respond 200, SaySpeak (cryptoResponses (js ''alice'') ! 2), Animate (cryptoResponses (js ''alice'') ! 2)]\<rparr>"
  unfolding demo_timed_out_run demo_speaking_state
  by (simp add: tts_timeout_def)

section \<open>Deduplication over a run\<close>

lemma processed_handle_mono:
  "x \<in> processedComments st \<Longrightarrow> x \<in> processedComments (handle H ev st)"
  by (cases ev)
     (auto simp: erase_intake_fields [OF parse_frame] erase_control_fields [OF post_start_frame]
        erase_control_fields [OF restart_timeout_frame] interval_tick_def processNextComment_def
        tts_timeout_def say_callback_def after_generate_def finally_block_def speakResponse_def
        Let_def split: task.splits sum.splits list.splits)

lemma processed_run_mono:
  "x \<in> processedComments st \<Longrightarrow> x \<in> processedComments (run H evs st)"
  by (induction evs arbitrary: st) (simp_all add: run_Nil run_Cons processed_handle_mono)

text \<open>
  C2. When the id of a comment can be computed, \<open>queueComment\<close> returns without error; it
  leaves the state as it is exactly when the id is in \<open>processedComments\<close>, and otherwise
  appends the comment at the tail of the queue. An id once in \<open>processedComments\<close> stays
  there, so after any further events the call still changes nothing. The queue itself is not
  consulted: the same comment offered again before it is processed is appended a second time.
\<close>

theorem queueComment_noop_iff_processed:
  assumes "commentId H usr msg p = Inr cid"
  shows "(queueComment H now st usr msg p = Inr st \<longleftrightarrow> cid \<in> processedComments st)
       \<and> (cid \<in> processedComments st \<longrightarrow>
            queueComment H now (run H evs st) usr msg p = Inr (run H evs st))
       \<and> (cid \<notin> processedComments st \<longrightarrow>
            queueComment H now st usr msg p =
              Inr (st\<lparr>commentQueue := commentQueue st @
                     [\<lparr>id_comment = cid, user = usr, message = msg, timestamp = now\<rparr>]\<rparr>)
            \<and> queueComment H now2
                 (st\<lparr>commentQueue := commentQueue st @
                     [\<lparr>id_comment = cid, user = usr, message = msg, timestamp = now\<rparr>]\<rparr>) usr msg p =
              Inr (st\<lparr>commentQueue := commentQueue st @
                     [\<lparr>id_comment = cid, user = usr, message = msg, timestamp = now\<rparr>,
                      \<lparr>id_comment = cid, user = usr, message = msg, timestamp = now2\<rparr>]\<rparr>))"
  using assms queue_append_neq [of st] processed_run_mono [of cid st H evs]
  by (simp add: queueComment_def)

theorem queueComment_noop_iff_processed_witness:
  "commentId demo_host (JStr (js ''alice'')) (JStr (js ''gm wagmi'')) IdNull = Inr (IdStr (js ''alice_6e819aef''))
   \<and> queueComment demo_host 1000 (constructor\<lparr>processedComments := {IdStr (js ''alice_6e819aef'')}\<rparr>)
        (JStr (js ''alice'')) (JStr (js ''gm wagmi'')) IdNull
      = Inr (constructor\<lparr>processedComments := {IdStr (js ''alice_6e819aef'')}\<rparr>)
   \<and> queueComment demo_host 3000 (run demo_host demo_timed_out constructor)
        (JStr (js ''alice'')) (JStr (js ''gm wagmi'')) IdNull
      = Inr (run demo_host demo_timed_out constructor)
   \<and> queueComment demo_host 1000 constructor (JStr (js ''alice'')) (JStr (js ''gm wagmi'')) IdNull
      \<noteq> Inr constructor"
proof -
  have h: "commentId demo_host (JStr (js ''alice'')) (JStr (js ''gm wagmi'')) IdNull = Inr (IdStr (js ''alice_6e819aef''))"
    by (simp add: commentId_text demo_host_def js_def)
  have a: "IdStr (js ''alice_6e819aef'') \<in> processedComments (constructor\<lparr>processedComments := {IdStr (js ''alice_6e819aef'')}\<rparr>)"
    by simp
  have b: "IdStr (js ''alice_6e819aef'') \<notin> processedComments constructor"
    by (simp add: constructor_def)
  have c: "IdStr (js ''alice_6e819aef'') \<in> processedComments (run demo_host demo_generating constructor)"
    by (simp add: demo_generating_state)
  have d: "run demo_host demo_timed_out constructor =
      run demo_host [GenerateSettles 0 BackendFails False, TtsTimeout 0]
        (run demo_host demo_generating constructor)"
    by (simp add: run_def demo_timed_out_def demo_speaking_def demo_generating_def
        del: handle.simps)
  from queueComment_noop_iff_processed [OF h, of 1000
         "constructor\<lparr>processedComments := {IdStr (js ''alice_6e819aef'')}\<rparr>" "[]" 2000]
       queueComment_noop_iff_processed [OF h, of 3000 "run demo_host demo_generating constructor"
         "[GenerateSettles 0 BackendFails False, TtsTimeout 0]" 2000]
       queueComment_noop_iff_processed [OF h, of 1000 constructor "[]" 2000] a b c d h
  show ?thesis by (simp add: queue_append_neq)
qed

section \<open>The response generator: proofs\<close>

lemma js_nonempty: "js (c # cs) \<noteq> []"
  by (simp add: js_def)









section \<open>The sequential processor: proofs\<close>

lemma tick_when_idle:
  assumes "run_inv st" "comments_convert st"
    and "0 < intervals st" "\<not> isProcessing st" "commentQueue st \<noteq> []"
  shows "isProcessing (handle H (IntervalTick d) st)
       \<and> commentQueue (handle H (IntervalTick d) st) = tl (commentQueue st)
       \<and> processedComments (handle H (IntervalTick d) st) =
           insert (id_comment (hd (commentQueue st))) (processedComments st)
       \<and> inflight (handle H (IntervalTick d) st) = [AwaitGenerate (hd (commentQueue st)) d]"
  using assms single_flight [OF assms(1)]
  by (cases "commentQueue st")
     (auto simp: interval_tick_def processNextComment_def comments_convert_def
        comment_converts_def)

lemma tick_when_busy: "isProcessing st \<Longrightarrow> handle H (IntervalTick d) st = st"
  by (simp add: interval_tick_def)

lemma generate_settles_step:
  assumes "run_inv st"
  shows "(inflight (handle H (GenerateSettles 0 b s) st) = []
          \<or> inflight (handle H (GenerateSettles 0 b s) st) = [AwaitSpeak (awaited st)])
       \<and> commentQueue (handle H (GenerateSettles 0 b s) st) = commentQueue st
       \<and> processedComments (handle H (GenerateSettles 0 b s) st) = processedComments st"
proof (cases "inflight st" rule: task_list_cases)
  case (Gen c d)
  then show ?thesis
    by (cases "generateResponse (textGenerator st) c d b")
       (simp_all add: awaited_def after_generate_def finally_block_def speakResponse_def Let_def)
next
  case (Many t u us)
  then show ?thesis using assms by (simp add: run_inv_def)
qed (simp_all add: awaited_def)

lemma callback_frame:
  "commentQueue (tts_timeout n st) = commentQueue st"
  "processedComments (tts_timeout n st) = processedComments st"
  "inflight (tts_timeout n st) = inflight st"
  "commentQueue (say_callback n err st) = commentQueue st"
  "processedComments (say_callback n err st) = processedComments st"
  "inflight (say_callback n err st) = inflight st"
  by (simp_all add: tts_timeout_def say_callback_def)

lemma completion_step:
  assumes "run_inv st" "inflight st = [AwaitSpeak n]"
    and "fin = TtsTimeout n \<or> fin = SayCallback n err"
  shows "n \<in> resolved (handle H fin st) \<and> inflight (handle H fin st) = [AwaitSpeak n]
       \<and> commentQueue (handle H fin st) = commentQueue st
       \<and> processedComments (handle H fin st) = processedComments st"
proof (cases "n \<in> resolved st")
  case True
  then have "n \<in> resolved (tts_timeout n st)" "n \<in> resolved (say_callback n err st)"
    by (simp_all add: tts_timeout_def say_callback_def)
  then show ?thesis
    using assms(2,3) by (auto simp: callback_frame)
next
  case False
  then have "ttsTimers st n = Some 5000" "n \<in> sayPending st"
    using assms(1,2) by (simp_all add: run_inv_def)
  then have "n \<in> resolved (tts_timeout n st)" "n \<in> resolved (say_callback n err st)"
    by (simp_all add: tts_timeout_def say_callback_def domIff)
  then show ?thesis
    using assms(2,3) by (auto simp: callback_frame)
qed

lemma completion_step_idle:
  assumes "inflight st = []"
    and "fin = TtsTimeout n \<or> fin = SayCallback n err"
  shows "inflight (handle H fin st) = []
       \<and> commentQueue (handle H fin st) = commentQueue st
       \<and> processedComments (handle H fin st) = processedComments st"
  using assms by (auto simp: callback_frame)

lemma speak_settles_step:
  assumes "inflight st = [AwaitSpeak n]" "n \<in> resolved st"
  shows "\<not> isProcessing (handle H (SpeakSettles 0) st) \<and> inflight (handle H (SpeakSettles 0) st) = []
       \<and> commentQueue (handle H (SpeakSettles 0) st) = commentQueue st
       \<and> processedComments (handle H (SpeakSettles 0) st) = processedComments st"
  using assms by (simp add: finally_block_def)

lemma back_to_idle:
  assumes "run_inv st"
    and "fin = TtsTimeout (awaited st) \<or> fin = SayCallback (awaited st) err"
  shows "\<not> isProcessing (run H [GenerateSettles 0 b s, fin, SpeakSettles 0] st)
       \<and> inflight (run H [GenerateSettles 0 b s, fin, SpeakSettles 0] st) = []
       \<and> commentQueue (run H [GenerateSettles 0 b s, fin, SpeakSettles 0] st) = commentQueue st
       \<and> processedComments (run H [GenerateSettles 0 b s, fin, SpeakSettles 0] st) = processedComments st"
proof -
  define s1 where "s1 = handle H (GenerateSettles 0 b s) st"
  define s2 where "s2 = handle H fin s1"
  have r: "run H [GenerateSettles 0 b s, fin, SpeakSettles 0] st = handle H (SpeakSettles 0) s2"
    by (simp add: run_def s1_def s2_def del: handle.simps)
  have inv1: "run_inv s1" unfolding s1_def using assms(1) by (rule run_inv_handle)
  have inv2: "run_inv s2" unfolding s2_def using inv1 by (rule run_inv_handle)
  have g: "(inflight s1 = [] \<or> inflight s1 = [AwaitSpeak (awaited st)])
       \<and> commentQueue s1 = commentQueue st \<and> processedComments s1 = processedComments st"
    unfolding s1_def using assms(1) by (rule generate_settles_step)
  show ?thesis
  proof (cases "inflight s1 = []")
    case True
    have c: "inflight s2 = [] \<and> commentQueue s2 = commentQueue s1
        \<and> processedComments s2 = processedComments s1"
      unfolding s2_def using True assms(2) by (rule completion_step_idle)
    have idle: "\<not> isProcessing s2" using inv2 c single_flight [OF inv2] by simp
    show ?thesis unfolding r using c g idle by simp
  next
    case False
    then have one: "inflight s1 = [AwaitSpeak (awaited st)]" using g by blast
    have c: "awaited st \<in> resolved s2 \<and> inflight s2 = [AwaitSpeak (awaited st)]
        \<and> commentQueue s2 = commentQueue s1 \<and> processedComments s2 = processedComments s1"
      unfolding s2_def using inv1 one assms(2) by (rule completion_step)
    have "\<not> isProcessing (handle H (SpeakSettles 0) s2) \<and> inflight (handle H (SpeakSettles 0) s2) = []
       \<and> commentQueue (handle H (SpeakSettles 0) s2) = commentQueue s2
       \<and> processedComments (handle H (SpeakSettles 0) s2) = processedComments s2"
      using c by (intro speak_settles_step [where n = "awaited st"]) blast+
    then show ?thesis unfolding r using c g by simp
  qed
qed

text \<open>
  C3. In every state of a run at most one call of \<open>processNextComment\<close> is suspended, and
  \<open>isProcessing\<close> holds exactly while one is. A tick in an idle state with a comment queued
  sets \<open>isProcessing\<close>, takes the head of the queue and puts its id into
  \<open>processedComments\<close>, with the response still to come: while a call waits for
  \<open>generateResponse\<close>, the id of its comment is already there. A tick in a busy state
  changes nothing. Whatever the text generator and \<open>say.speak\<close> do, once the response has settled
  and the speech has ended, by its callback or by the timeout, the processor is idle again and
  the queue and the processed ids are as before: nothing is queued again. An exception from
  \<open>generateResponse\<close> ends in \<open>finally\<close> too.
\<close>

theorem processor_single_flight:
  "length (inflight (run H evs constructor)) \<le> 1
   \<and> (isProcessing (run H evs constructor) \<longleftrightarrow> inflight (run H evs constructor) \<noteq> [])
   \<and> (0 < intervals (run H evs constructor) \<and> \<not> isProcessing (run H evs constructor)
        \<and> commentQueue (run H evs constructor) \<noteq> [] \<longrightarrow>
          isProcessing (handle H (IntervalTick d) (run H evs constructor))
          \<and> commentQueue (handle H (IntervalTick d) (run H evs constructor)) =
              tl (commentQueue (run H evs constructor))
          \<and> processedComments (handle H (IntervalTick d) (run H evs constructor)) =
              insert (id_comment (hd (commentQueue (run H evs constructor))))
                (processedComments (run H evs constructor))
          \<and> inflight (handle H (IntervalTick d) (run H evs constructor)) =
              [AwaitGenerate (hd (commentQueue (run H evs constructor))) d])
   \<and> (\<forall>c k. inflight (run H evs constructor) = [AwaitGenerate c k] \<longrightarrow>
          id_comment c \<in> processedComments (run H evs constructor))
   \<and> (isProcessing (run H evs constructor) \<longrightarrow>
          handle H (IntervalTick d) (run H evs constructor) = run H evs constructor)
   \<and> (fin = TtsTimeout (awaited (run H evs constructor))
        \<or> fin = SayCallback (awaited (run H evs constructor)) err \<longrightarrow>
          \<not> isProcessing (run H [GenerateSettles 0 b s, fin, SpeakSettles 0] (run H evs constructor))
          \<and> inflight (run H [GenerateSettles 0 b s, fin, SpeakSettles 0] (run H evs constructor)) = []
          \<and> commentQueue (run H [GenerateSettles 0 b s, fin, SpeakSettles 0] (run H evs constructor))
              = commentQueue (run H evs constructor)
          \<and> processedComments (run H [GenerateSettles 0 b s, fin, SpeakSettles 0] (run H evs constructor))
              = processedComments (run H evs constructor))
   \<and> \<not> isProcessing (after_generate i (Inl e) s st)
   \<and> commentQueue (after_generate i (Inl e) s st) = commentQueue st
   \<and> processedComments (after_generate i (Inl e) s st) = processedComments st"
proof -
  have reach: "run_inv (run H evs constructor)" by (rule run_reachable_inv)
  have conv: "comments_convert (run H evs constructor)" by (rule comments_convert_reachable)
  have err: "\<not> isProcessing (after_generate i (Inl e) s st)
   \<and> commentQueue (after_generate i (Inl e) s st) = commentQueue st
   \<and> processedComments (after_generate i (Inl e) s st) = processedComments st"
    by (simp add: after_generate_def finally_block_def)
  have marked: "\<forall>c k. inflight (run H evs constructor) = [AwaitGenerate c k] \<longrightarrow>
          id_comment c \<in> processedComments (run H evs constructor)"
    using reach by (auto simp: run_inv_def)
  show ?thesis
    using single_flight [OF reach] marked tick_when_idle [OF reach conv, of H d]
      tick_when_busy [of "run H evs constructor" H d]
      back_to_idle [OF reach, of fin err H b s] err
    by blast
qed

theorem processor_single_flight_witness:
  "0 < intervals (run demo_host demo_intake constructor)
   \<and> \<not> isProcessing (run demo_host demo_intake constructor)
   \<and> commentQueue (run demo_host demo_intake constructor) \<noteq> []
   \<and> isProcessing (handle demo_host (IntervalTick 7) (run demo_host demo_intake constructor))
   \<and> inflight (handle demo_host (IntervalTick 7) (run demo_host demo_intake constructor)) =
        [AwaitGenerate (hd (commentQueue (run demo_host demo_intake constructor))) 7]
   \<and> inflight (run demo_host demo_generating constructor) =
        [AwaitGenerate \<lparr>id_comment = IdStr (js ''alice_6e819aef''),
          user = JStr (js ''alice''), message = JStr (js ''gm wagmi''), timestamp = 1000\<rparr> 7]
   \<and> IdStr (js ''alice_6e819aef'') \<in> processedComments (run demo_host demo_generating constructor)
   \<and> isProcessing (run demo_host demo_speaking constructor)
   \<and> handle demo_host (IntervalTick 7) (run demo_host demo_speaking constructor) =
        run demo_host demo_speaking constructor
   \<and> \<not> isProcessing (run demo_host [GenerateSettles 0 BackendFails False, TtsTimeout 0, SpeakSettles 0]
          (run demo_host demo_speaking constructor))
   \<and> commentQueue (run demo_host [GenerateSettles 0 BackendFails False, TtsTimeout 0, SpeakSettles 0]
          (run demo_host demo_speaking constructor)) = []"
proof -
  have a: "0 < intervals (run demo_host demo_intake constructor)
   \<and> \<not> isProcessing (run demo_host demo_intake constructor)
   \<and> commentQueue (run demo_host demo_intake constructor) \<noteq> []"
    by (simp add: demo_intake_state)
  have b: "isProcessing (run demo_host demo_speaking constructor)"
      "awaited (run demo_host demo_speaking constructor) = 0"
      "commentQueue (run demo_host demo_speaking constructor) = []"
    by (simp_all add: demo_speaking_state awaited_def)
  have g: "inflight (run demo_host demo_generating constructor) =
        [AwaitGenerate \<lparr>id_comment = IdStr (js ''alice_6e819aef''),
          user = JStr (js ''alice''), message = JStr (js ''gm wagmi''), timestamp = 1000\<rparr> 7]"
    by (simp add: demo_generating_state)
  have m: "IdStr (js ''alice_6e819aef'') \<in> processedComments (run demo_host demo_generating constructor)"
    using processor_single_flight [of demo_host demo_generating 7 "TtsTimeout 0" False BackendFails
        False 0 TypeError constructor] g
    by simp
  from processor_single_flight [of demo_host demo_intake 7 "TtsTimeout 0" False BackendFails False
        0 TypeError constructor]
    processor_single_flight [of demo_host demo_speaking 7 "TtsTimeout 0" False BackendFails False
        0 TypeError constructor]
    a b g m
  show ?thesis by simp
qed

section \<open>The speech announcer: proofs\<close>

lemma ttsDisabled_parse: "ttsDisabled (parseAndQueueComments H now st out) = ttsDisabled st"
  by (rule erase_intake_fields [OF parse_frame])

lemma ttsDisabled_post_start: "ttsDisabled (post_start body st) = ttsDisabled st"
  by (rule erase_control_fields [OF post_start_frame])

lemma ttsDisabled_restart: "ttsDisabled (restart_timeout st) = ttsDisabled st"
  by (rule erase_control_fields [OF restart_timeout_frame])

lemma ttsDisabled_tick: "ttsDisabled (interval_tick d st) = ttsDisabled st"
  by (simp add: interval_tick_def processNextComment_def Let_def split: list.splits)

lemma ttsDisabled_handle_mono: "ttsDisabled st \<Longrightarrow> ttsDisabled (handle H ev st)"
  by (cases ev)
     (auto simp: ttsDisabled_parse ttsDisabled_post_start ttsDisabled_restart ttsDisabled_tick
        tts_timeout_def say_callback_def after_generate_def finally_block_def speakResponse_def
        Let_def split: task.splits sum.splits)

lemma ttsDisabled_run_mono: "ttsDisabled st \<Longrightarrow> ttsDisabled (run H evs st)"
  by (induction evs arbitrary: st) (simp_all add: run_Nil run_Cons ttsDisabled_handle_mono)

lemma ttsDisabled_handle_cause:
  "\<not> ttsDisabled st \<Longrightarrow> ttsDisabled (handle H ev st) \<Longrightarrow>
     (\<exists>n. ev = TtsTimeout n) \<or> (\<exists>n. ev = SayCallback n True) \<or> (\<exists>i b. ev = GenerateSettles i b True)"
  by (cases ev)
     (auto simp: ttsDisabled_parse ttsDisabled_post_start ttsDisabled_restart ttsDisabled_tick
        tts_timeout_def say_callback_def after_generate_def finally_block_def speakResponse_def
        Let_def split: task.splits sum.splits if_splits)

text \<open>
  C5. No event resets \<open>ttsDisabled\<close>: once set it stays set through every event and every
  run. It is set only by the speech timeout, by the \<open>say.speak\<close> callback with an error,
  or when \<open>say.speak\<close> raises. In a state with \<open>ttsDisabled\<close> set,
  \<open>speakResponse\<close> does not call \<open>say.speak\<close> and arms no timer: it triggers the
  animation, and its promise is resolved when it returns.
\<close>

theorem announcer_only_disables:
  "(ttsDisabled st \<longrightarrow> ttsDisabled (handle H ev st) \<and> ttsDisabled (run H evs st))
   \<and> (\<not> ttsDisabled st \<and> ttsDisabled (handle H ev st) \<longrightarrow>
         (\<exists>n. ev = TtsTimeout n) \<or> (\<exists>n. ev = SayCallback n True)
         \<or> (\<exists>i b. ev = GenerateSettles i b True))
   \<and> (ttsDisabled st \<longrightarrow>
         effects (speakResponse s st response) = effects st @ [Animate response]
         \<and> promises st \<in> resolved (speakResponse s st response)
         \<and> ttsTimers (speakResponse s st response) = ttsTimers st
         \<and> sayPending (speakResponse s st response) = sayPending st
         \<and> ttsDisabled (speakResponse s st response))"
  using ttsDisabled_handle_mono [of st H ev] ttsDisabled_run_mono [of st H evs]
    ttsDisabled_handle_cause [of st H ev]
  by (auto simp: speakResponse_def Let_def)

theorem announcer_only_disables_witness:
  "\<not> ttsDisabled (run demo_host demo_speaking constructor)
   \<and> ttsDisabled (handle demo_host (TtsTimeout 0) (run demo_host demo_speaking constructor))
   \<and> ttsDisabled (run demo_host demo_timed_out constructor)
   \<and> ttsDisabled (handle demo_host (SayCallback 0 False) (run demo_host demo_timed_out constructor))
   \<and> ttsDisabled (run demo_host [SayCallback 0 False, SpeakSettles 0]
        (run demo_host demo_timed_out constructor))
   \<and> effects (speakResponse False (run demo_host demo_timed_out constructor) (js ''gm'')) =
        effects (run demo_host demo_timed_out constructor) @ [Animate (js ''gm'')]"
proof -
  have a: "\<not> ttsDisabled (run demo_host demo_speaking constructor)"
    by (simp add: demo_speaking_state)
  have b: "ttsDisabled (handle demo_host (TtsTimeout 0) (run demo_host demo_speaking constructor))"
    by (simp add: demo_speaking_state tts_timeout_def)
  have c: "ttsDisabled (run demo_host demo_timed_out constructor)"
    by (simp add: demo_timed_out_state)
  from announcer_only_disables [of "run demo_host demo_timed_out constructor" demo_host
      "SayCallback 0 False" "[SayCallback 0 False, SpeakSettles 0]" False "js ''gm''"]
    announcer_only_disables [of "run demo_host demo_speaking constructor" demo_host
      "TtsTimeout 0" "[]" False "js ''gm''"] a b c
  show ?thesis by blast
qed

lemma resolved_handle_mono: "n \<in> resolved st \<Longrightarrow> n \<in> resolved (handle H ev st)"
  by (cases ev)
     (auto simp: erase_intake_fields [OF parse_frame] erase_control_fields [OF post_start_frame]
        erase_control_fields [OF restart_timeout_frame] interval_tick_def processNextComment_def
        tts_timeout_def say_callback_def after_generate_def finally_block_def speakResponse_def
        Let_def split: task.splits sum.splits option.splits list.splits)

lemma awaiting_has_timer:
  assumes "run_inv st" "i < length (inflight st)" "inflight st ! i = AwaitSpeak n" "n \<notin> resolved st"
  shows "ttsTimers st n = Some 5000 \<and> n \<in> sayPending st"
  using assms by (cases "inflight st" rule: task_list_cases) (auto simp: run_inv_def)

lemma timeout_then_resume:
  assumes "run_inv st" "inflight st = [AwaitSpeak n]" "n \<notin> resolved st"
  shows "\<not> isProcessing (run H [TtsTimeout n, SpeakSettles 0] st)
       \<and> ttsDisabled (run H [TtsTimeout n, SpeakSettles 0] st)"
  using assms by (auto simp: run_inv_def run_Cons run_Nil tts_timeout_def finally_block_def)

text \<open>
  C6. The promise of \<open>speakResponse\<close> is resolved on every path. With speech disabled, or
  when \<open>say.speak\<close> raises, it is resolved when \<open>speakResponse\<close> returns. Otherwise a
  timer of 5000 ms is armed and the callback is outstanding; the timer, when it fires, resolves
  the promise and disables speech, and the callback resolves it and disables speech exactly on
  an error. A resolved promise stays resolved. In every state of a run, a call waiting for an
  unresolved promise has that timer armed, and after the timeout the processor resumes and is
  idle.
\<close>

theorem announce_always_completes:
  "(ttsDisabled st \<longrightarrow> promises st \<in> resolved (speakResponse s st response))
   \<and> (\<not> ttsDisabled st \<and> s \<longrightarrow>
         promises st \<in> resolved (speakResponse s st response)
         \<and> ttsDisabled (speakResponse s st response))
   \<and> (\<not> ttsDisabled st \<and> \<not> s \<longrightarrow>
         ttsTimers (speakResponse s st response) (promises st) = Some 5000
         \<and> promises st \<in> sayPending (speakResponse s st response)
         \<and> \<not> ttsDisabled (speakResponse s st response))
   \<and> (ttsTimers st n \<noteq> None \<longrightarrow>
         n \<in> resolved (tts_timeout n st) \<and> ttsDisabled (tts_timeout n st))
   \<and> (n \<in> sayPending st \<longrightarrow>
         n \<in> resolved (say_callback n err st)
         \<and> (ttsDisabled (say_callback n err st) \<longleftrightarrow> err \<or> ttsDisabled st))
   \<and> (n \<in> resolved st \<longrightarrow> n \<in> resolved (handle H ev st))
   \<and> (\<forall>i m. i < length (inflight (run H evs constructor))
              \<and> inflight (run H evs constructor) ! i = AwaitSpeak m
              \<and> m \<notin> resolved (run H evs constructor) \<longrightarrow>
         ttsTimers (run H evs constructor) m = Some 5000
         \<and> \<not> isProcessing (run H [TtsTimeout m, SpeakSettles 0] (run H evs constructor))
         \<and> ttsDisabled (run H [TtsTimeout m, SpeakSettles 0] (run H evs constructor)))"
proof -
  have reach: "run_inv (run H evs constructor)" by (rule run_reachable_inv)
  have last: "ttsTimers (run H evs constructor) m = Some 5000
         \<and> \<not> isProcessing (run H [TtsTimeout m, SpeakSettles 0] (run H evs constructor))
         \<and> ttsDisabled (run H [TtsTimeout m, SpeakSettles 0] (run H evs constructor))"
    if a: "i < length (inflight (run H evs constructor))
              \<and> inflight (run H evs constructor) ! i = AwaitSpeak m
              \<and> m \<notin> resolved (run H evs constructor)" for i m
  proof -
    have one: "inflight (run H evs constructor) = [AwaitSpeak m]"
      using reach a by (cases "inflight (run H evs constructor)" rule: task_list_cases)
        (auto simp: run_inv_def)
    show ?thesis
      using awaiting_has_timer [OF reach, of i m] timeout_then_resume [OF reach one] a by blast
  qed
  have first: "(ttsDisabled st \<longrightarrow> promises st \<in> resolved (speakResponse s st response))
   \<and> (\<not> ttsDisabled st \<and> s \<longrightarrow>
         promises st \<in> resolved (speakResponse s st response)
         \<and> ttsDisabled (speakResponse s st response))
   \<and> (\<not> ttsDisabled st \<and> \<not> s \<longrightarrow>
         ttsTimers (speakResponse s st response) (promises st) = Some 5000
         \<and> promises st \<in> sayPending (speakResponse s st response)
         \<and> \<not> ttsDisabled (speakResponse s st response))"
    by (simp add: speakResponse_def Let_def)
  have cb: "(ttsTimers st n \<noteq> None \<longrightarrow>
         n \<in> resolved (tts_timeout n st) \<and> ttsDisabled (tts_timeout n st))
   \<and> (n \<in> sayPending st \<longrightarrow>
         n \<in> resolved (say_callback n err st)
         \<and> (ttsDisabled (say_callback n err st) \<longleftrightarrow> err \<or> ttsDisabled st))"
    by (auto simp: tts_timeout_def say_callback_def)
  show ?thesis
    using first cb resolved_handle_mono [of n st H ev] last by blast
qed

theorem announce_always_completes_witness:
  "\<not> ttsDisabled (run demo_host demo_speaking constructor)
   \<and> ttsTimers (run demo_host demo_speaking constructor) 0 \<noteq> None
   \<and> 0 \<in> sayPending (run demo_host demo_speaking constructor)
   \<and> inflight (run demo_host demo_speaking constructor) ! 0 = AwaitSpeak 0
   \<and> 0 \<notin> resolved (run demo_host demo_speaking constructor)
   \<and> ttsDisabled (run demo_host demo_timed_out constructor)
   \<and> 0 \<in> resolved (run demo_host demo_timed_out constructor)
   \<and> ttsTimers (run demo_host demo_speaking constructor) 0 = Some 5000
   \<and> 0 \<in> resolved (tts_timeout 0 (run demo_host demo_speaking constructor))
   \<and> 0 \<in> resolved (say_callback 0 True (run demo_host demo_speaking constructor))
   \<and> \<not> isProcessing (run demo_host [TtsTimeout 0, SpeakSettles 0]
          (run demo_host demo_speaking constructor))
   \<and> promises (run demo_host demo_speaking constructor)
        \<in> resolved (speakResponse True (run demo_host demo_speaking constructor) (js ''gm''))
   \<and> ttsTimers (speakResponse False (run demo_host demo_speaking constructor) (js ''gm''))
        (promises (run demo_host demo_speaking constructor)) = Some 5000
   \<and> promises (run demo_host demo_timed_out constructor)
        \<in> resolved (speakResponse False (run demo_host demo_timed_out constructor) (js ''gm''))
   \<and> 0 \<in> resolved (handle demo_host (SayCallback 0 False) (run demo_host demo_timed_out constructor))"
proof -
  have a: "\<not> ttsDisabled (run demo_host demo_speaking constructor)"
      "ttsTimers (run demo_host demo_speaking constructor) 0 \<noteq> None"
      "0 \<in> sayPending (run demo_host demo_speaking constructor)"
      "0 < length (inflight (run demo_host demo_speaking constructor))"
      "inflight (run demo_host demo_speaking constructor) ! 0 = AwaitSpeak 0"
      "0 \<notin> resolved (run demo_host demo_speaking constructor)"
    by (simp_all add: demo_speaking_state)
  have b: "ttsDisabled (run demo_host demo_timed_out constructor)"
      "0 \<in> resolved (run demo_host demo_timed_out constructor)"
    by (simp_all add: demo_timed_out_state)
  from announce_always_completes [of "run demo_host demo_speaking constructor" True "js ''gm''" 0
      True demo_host "TtsTimeout 0" demo_speaking]
    announce_always_completes [of "run demo_host demo_speaking constructor" False "js ''gm''" 0
      True demo_host "TtsTimeout 0" demo_speaking]
    announce_always_completes [of "run demo_host demo_timed_out constructor" False "js ''gm''" 0
      True demo_host "SayCallback 0 False" demo_speaking]
    a b
  show ?thesis by blast
qed

lemma resolving_clears_flag:
  "n \<notin> resolved st \<Longrightarrow> n \<in> resolved (handle H ev st) \<Longrightarrow> \<not> currentlySpeaking (handle H ev st)"
  by (cases ev)
     (auto simp: erase_intake_fields [OF parse_frame] erase_control_fields [OF post_start_frame]
        erase_control_fields [OF restart_timeout_frame] interval_tick_def processNextComment_def
        tts_timeout_def say_callback_def after_generate_def finally_block_def speakResponse_def
        Let_def split: task.splits sum.splits option.splits list.splits if_splits)

lemma speaking_means_awaiting:
  "run_inv st \<Longrightarrow> currentlySpeaking st \<Longrightarrow> \<exists>n. inflight st = [AwaitSpeak n] \<and> n \<notin> resolved st"
  by (cases "inflight st" rule: task_list_cases) (auto simp: run_inv_def)

lemma settled_not_speaking:
  assumes "run_inv st" "i < length (inflight st)" "inflight st ! i = AwaitSpeak n" "n \<in> resolved st"
  shows "\<not> currentlySpeaking (handle H (SpeakSettles i) st) \<and> inflight (handle H (SpeakSettles i) st) = []"
  using assms by (cases "inflight st" rule: task_list_cases) (auto simp: run_inv_def finally_block_def)

text \<open>
  C10. In every state of a run, \<open>currentlySpeaking\<close> holds only while a call waits for an
  unresolved promise of \<open>speakResponse\<close>. Every event that resolves a promise leaves the
  flag false: \<open>speakResponse\<close> itself when speech is disabled or \<open>say.speak\<close> raises,
  the timeout, and the callback with or without an error; \<open>speakResponse\<close> leaves it true
  only when speech has started. So once the call has resumed, and whenever no call is
  suspended, \<open>GET /status\<close> reports \<open>currentlySpeaking\<close> false.
\<close>

theorem currentlySpeaking_only_in_flight:
  "(currentlySpeaking (run H evs constructor) \<longrightarrow>
      (\<exists>n. inflight (run H evs constructor) = [AwaitSpeak n] \<and> n \<notin> resolved (run H evs constructor)))
   \<and> (\<forall>i n. i < length (inflight (run H evs constructor))
             \<and> inflight (run H evs constructor) ! i = AwaitSpeak n
             \<and> n \<in> resolved (run H evs constructor) \<longrightarrow>
          \<not> reports_speaking (get_status (handle H (SpeakSettles i) (run H evs constructor))))
   \<and> (inflight (run H evs constructor) = [] \<longrightarrow>
          \<not> reports_speaking (get_status (run H evs constructor)))
   \<and> (m \<notin> resolved st \<and> m \<in> resolved (handle H ev st) \<longrightarrow>
          \<not> currentlySpeaking (handle H ev st))
   \<and> (\<not> ttsDisabled st \<and> \<not> s \<longrightarrow> currentlySpeaking (speakResponse s st response))
   \<and> (ttsDisabled st \<or> s \<longrightarrow>
          \<not> currentlySpeaking (speakResponse s st response)
          \<and> promises st \<in> resolved (speakResponse s st response))
   \<and> (ttsTimers st k \<noteq> None \<longrightarrow>
          \<not> currentlySpeaking (tts_timeout k st) \<and> k \<in> resolved (tts_timeout k st))
   \<and> (k \<in> sayPending st \<longrightarrow>
          \<not> currentlySpeaking (say_callback k err st) \<and> k \<in> resolved (say_callback k err st))"
proof -
  have reach: "run_inv (run H evs constructor)" by (rule run_reachable_inv)
  have a: "currentlySpeaking (run H evs constructor) \<longrightarrow>
      (\<exists>n. inflight (run H evs constructor) = [AwaitSpeak n] \<and> n \<notin> resolved (run H evs constructor))"
    using speaking_means_awaiting [OF reach] by blast
  have b: "\<forall>i n. i < length (inflight (run H evs constructor))
             \<and> inflight (run H evs constructor) ! i = AwaitSpeak n
             \<and> n \<in> resolved (run H evs constructor) \<longrightarrow>
          \<not> reports_speaking (get_status (handle H (SpeakSettles i) (run H evs constructor)))"
    using settled_not_speaking [OF reach] by (simp add: get_status_def del: handle.simps)
  have c: "inflight (run H evs constructor) = [] \<longrightarrow>
          \<not> reports_speaking (get_status (run H evs constructor))"
    using a by (auto simp: get_status_def)
  have d: "m \<notin> resolved st \<and> m \<in> resolved (handle H ev st) \<longrightarrow>
          \<not> currentlySpeaking (handle H ev st)"
    using resolving_clears_flag [of m st H ev] by blast
  have e: "(\<not> ttsDisabled st \<and> \<not> s \<longrightarrow> currentlySpeaking (speakResponse s st response))
   \<and> (ttsDisabled st \<or> s \<longrightarrow>
          \<not> currentlySpeaking (speakResponse s st response)
          \<and> promises st \<in> resolved (speakResponse s st response))"
    by (simp add: speakResponse_def Let_def)
  have f: "(ttsTimers st k \<noteq> None \<longrightarrow>
          \<not> currentlySpeaking (tts_timeout k st) \<and> k \<in> resolved (tts_timeout k st))
   \<and> (k \<in> sayPending st \<longrightarrow>
          \<not> currentlySpeaking (say_callback k err st) \<and> k \<in> resolved (say_callback k err st))"
    by (auto simp: tts_timeout_def say_callback_def)
  show ?thesis using a b c d e f by blast
qed

theorem currentlySpeaking_only_in_flight_witness:
  "currentlySpeaking (run demo_host demo_speaking constructor)
   \<and> inflight (run demo_host demo_speaking constructor) = [AwaitSpeak 0]
   \<and> 0 \<notin> resolved (run demo_host demo_speaking constructor)
   \<and> 0 \<in> resolved (handle demo_host (TtsTimeout 0) (run demo_host demo_speaking constructor))
   \<and> \<not> currentlySpeaking (handle demo_host (TtsTimeout 0) (run demo_host demo_speaking constructor))
   \<and> inflight (run demo_host demo_timed_out constructor) ! 0 = AwaitSpeak 0
   \<and> 0 \<in> resolved (run demo_host demo_timed_out constructor)
   \<and> \<not> reports_speaking (get_status (handle demo_host (SpeakSettles 0)
          (run demo_host demo_timed_out constructor)))
   \<and> inflight (run demo_host [] constructor) = []
   \<and> \<not> reports_speaking (get_status (run demo_host [] constructor))
   \<and> currentlySpeaking (speakResponse False (run demo_host demo_speaking constructor) (js ''gm''))
   \<and> \<not> currentlySpeaking (speakResponse True (run demo_host demo_speaking constructor) (js ''gm''))
   \<and> \<not> currentlySpeaking (tts_timeout 0 (run demo_host demo_speaking constructor))
   \<and> \<not> currentlySpeaking (say_callback 0 False (run demo_host demo_speaking constructor))"
proof -
  have a: "currentlySpeaking (run demo_host demo_speaking constructor)"
      "\<not> ttsDisabled (run demo_host demo_speaking constructor)"
      "ttsTimers (run demo_host demo_speaking constructor) 0 \<noteq> None"
      "0 \<in> sayPending (run demo_host demo_speaking constructor)"
      "0 \<notin> resolved (run demo_host demo_speaking constructor)"
      "0 \<in> resolved (handle demo_host (TtsTimeout 0) (run demo_host demo_speaking constructor))"
      "inflight (run demo_host demo_speaking constructor) = [AwaitSpeak 0]"
    by (simp_all add: demo_speaking_state tts_timeout_def)
  have b: "0 < length (inflight (run demo_host demo_timed_out constructor))"
      "inflight (run demo_host demo_timed_out constructor) ! 0 = AwaitSpeak 0"
      "0 \<in> resolved (run demo_host demo_timed_out constructor)"
    by (simp_all add: demo_timed_out_state)
  have c: "inflight (run demo_host [] constructor) = []"
    by (simp add: run_def constructor_def)
  from currentlySpeaking_only_in_flight [of demo_host demo_speaking 0
        "run demo_host demo_speaking constructor" "TtsTimeout 0" False "js ''gm''" 0 False]
    currentlySpeaking_only_in_flight [of demo_host demo_timed_out 0
        "run demo_host demo_speaking constructor" "TtsTimeout 0" True "js ''gm''" 0 False]
    currentlySpeaking_only_in_flight [of demo_host "[]" 0
        "run demo_host demo_speaking constructor" "TtsTimeout 0" True "js ''gm''" 0 False]
    a b c
  show ?thesis by simp
qed

section \<open>The start endpoint: proofs\<close>











text \<open>
  A request whose username is an object with an own property \<open>toString\<close>: the handler
  stores both values, its log line raises, and the response has status 500; nothing is killed
  or spawned.
\<close>

lemma post_start_unconvertible_username:
  "post_start [(js ''tokenAddress'', JStr (js ''So1anaT0ken'')),
               (js ''username'', JObj [(js ''toString'', JNull)])] st =
     st\<lparr>username := JObj [(js ''toString'', JNull)], tokenAddress := JStr (js ''So1anaT0ken''),
        effects := effects st @ [Respond 500]\<rparr>"
proof -
  have k: "map_of (rev [(js ''tokenAddress'', JStr (js ''So1anaT0ken'')),
               (js ''username'', JObj [(js ''toString'', JNull)])]) (js ''tokenAddress'')
             = Some (JStr (js ''So1anaT0ken''))"
    "map_of (rev [(js ''tokenAddress'', JStr (js ''So1anaT0ken'')),
               (js ''username'', JObj [(js ''toString'', JNull)])]) (js ''username'')
             = Some (JObj [(js ''toString'', JNull)])"
    by (simp_all add: js_eq_iff)
  have nz: "js ''So1anaT0ken'' \<noteq> []" by (simp add: js_def)
  have nc: "\<not> converts (JObj [(js ''toString'', JNull)])" by (simp add: converts_def)
  show ?thesis
    by (simp add: post_start_def k nz nc Let_def del: map_of.simps rev.simps)
qed

section \<open>The earlier copy of the class: proofs\<close>

lemma decimal_examples: "decimal 1000 = js ''1000''" "decimal 1001 = js ''1001''"
  by (simp_all add: js_def)

lemma earlier_commentId_follows_clock:
  "earlier_commentId (js ''alice'') (js ''gm wagmi'') 1000
     \<noteq> earlier_commentId (js ''alice'') (js ''gm wagmi'') 1001"
  by (simp add: earlier_commentId_def decimal_examples js_eq_iff)

lemma chat_match: "rx_search word_colon_re (js ''chat: gm'') = Some [js ''chat'', js ''gm'']"
  by (simp add: word_colon_re_def char_classes)

lemma chat_line:
  "earlier_parseAndQueueComments now stamp st (js ''chat: gm'') =
     (if IdStr (earlier_commentId (js ''chat'') (js ''gm'') now) \<in> processedComments st then st
      else st\<lparr>commentQueue := commentQueue st @
             [\<lparr>id_comment = IdStr (earlier_commentId (js ''chat'') (js ''gm'') now),
               user = JStr (js ''chat''), message = JStr (js ''gm''), timestamp = stamp\<rparr>]\<rparr>)"
proof -
  have sp: "split_nl (js ''chat: gm'') = [js ''chat: gm'']"
    by (rule split_nl_single) (simp add: js_def)
  have inc: "includes_str (js ''chat: gm'') (js ''chat:'')"
    by (simp add: char_classes)
  have tr: "trim (js ''gm'') = js ''gm''" by (simp add: trim_def char_classes)
  show ?thesis
    by (simp add: earlier_parseAndQueueComments_def sp earlier_processLine_def inc chat_match tr
        Let_def)
qed

lemma chat_ids:
  "earlier_commentId (js ''chat'') (js ''gm'') 1000 = js ''chat_gm_1000''"
  "earlier_commentId (js ''chat'') (js ''gm'') 1001 = js ''chat_gm_1001''"
  by (simp_all add: earlier_commentId_def decimal_examples) (simp_all add: js_def)

text \<open>
  C1, on the earlier copy. The line \<open>chat: gm\<close> arrives when the clock reads 1000 and is
  queued with the id \<open>chat_gm_1000\<close>. The comment is taken and its id put into
  \<open>processedComments\<close>. The same line arrives again when the clock reads 1001: its id is
  \<open>chat_gm_1001\<close>, which is not in the set, and the comment is queued a second time. The
  same user and message have two ids, and the check against \<open>processedComments\<close> finds
  nothing.
\<close>

theorem earlier_intake_id_follows_clock:
  "commentQueue (earlier_parseAndQueueComments 1000 1000 constructor (js ''chat: gm'')) =
     [\<lparr>id_comment = IdStr (js ''chat_gm_1000''), user = JStr (js ''chat''),
       message = JStr (js ''gm''), timestamp = 1000\<rparr>]
   \<and> commentQueue (earlier_parseAndQueueComments 1001 1001
        (constructor\<lparr>processedComments := {IdStr (js ''chat_gm_1000'')}\<rparr>) (js ''chat: gm'')) =
     [\<lparr>id_comment = IdStr (js ''chat_gm_1001''), user = JStr (js ''chat''),
       message = JStr (js ''gm''), timestamp = 1001\<rparr>]
   \<and> IdStr (js ''chat_gm_1000'') \<noteq> IdStr (js ''chat_gm_1001'')"
  by (simp add: chat_line chat_ids js_eq_iff constructor_def)

end
